theory Spec2Isabelle
  imports Main "HOL-Library.Word" "HOL-Library.AList" "HOL-Library.Signed_Division"
    "HOL-Library.Log_Nat"
begin

section \<open>Values shared by the Go sources\<close>

text \<open>
  Go's \<open>int64\<close> is a 64-bit word: \<open>+\<close> and \<open>*\<close> wrap around, \<open>sint\<close> reads the
  two's complement value and \<open><s\<close> is the signed comparison that Go's \<open><\<close> on
  \<open>int64\<close> performs.
\<close>

type_synonym int64 = "64 word"

text \<open>
  A value of type \<open>interface{}\<close> carries its dynamic type. \<open>INil\<close> is the nil
  interface, which is also what indexing a map yields for a key it does not hold. A
  \<open>float64\<close> (what \<open>encoding/json\<close> decodes a number to) is kept as its 64 bits: no
  arithmetic is done on it here.
\<close>

datatype iface =
    INil
  | IInt64 int64
  | IString string
  | IBool bool
  | IFloat64 int64

text \<open>
  A \<open>map[string]interface{}\<close> is \<open>None\<close> when it is the nil map and otherwise the
  list of its entries, one per key (the keys are distinct), in the order in which a
  \<open>range\<close> loop happens to visit them.
\<close>

type_synonym gomap = "(string \<times> iface) list option"

text \<open>Reading \<open>m[k]\<close>: a nil map and a missing key both give the zero value.\<close>

definition map_index :: "gomap \<Rightarrow> string \<Rightarrow> iface" where
  "map_index m k =
     (case m of
        None \<Rightarrow> INil
      | Some kvs \<Rightarrow> (case map_of kvs k of None \<Rightarrow> INil | Some v \<Rightarrow> v))"

text \<open>The keys of a map and the entries as a partial function, for stating properties.\<close>

definition map_keys :: "gomap \<Rightarrow> string set" where
  "map_keys m = (case m of None \<Rightarrow> {} | Some kvs \<Rightarrow> fst ` set kvs)"

definition well_formed :: "gomap \<Rightarrow> bool" where
  "well_formed m = (case m of None \<Rightarrow> True | Some kvs \<Rightarrow> distinct (map fst kvs))"

text \<open>A run-time panic of the Go program.\<close>

datatype panic = TypeAssertionPanic | NilPointerDereference

text \<open>
  The type assertion \<open>x.(T)\<close> in its two forms. The comma-ok form
  \<open>res, ok := x.(T)\<close> never panics and gives the zero value of \<open>T\<close> with
  \<open>ok = false\<close> when the dynamic type of \<open>x\<close> is not \<open>T\<close>; the single-value form
  panics there.
\<close>

fun int64_ok :: "iface \<Rightarrow> int64 \<times> bool" where
  "int64_ok (IInt64 n) = (n, True)"
| "int64_ok _ = (0, False)"

fun string_ok :: "iface \<Rightarrow> string \<times> bool" where
  "string_ok (IString s) = (s, True)"
| "string_ok _ = ('''', False)"

fun bool_ok :: "iface \<Rightarrow> bool \<times> bool" where
  "bool_ok (IBool b) = (b, True)"
| "bool_ok _ = (False, False)"

fun int64_assert :: "iface \<Rightarrow> panic + int64" where
  "int64_assert (IInt64 n) = Inr n"
| "int64_assert _ = Inl TypeAssertionPanic"

fun string_assert :: "iface \<Rightarrow> panic + string" where
  "string_assert (IString s) = Inr s"
| "string_assert _ = Inl TypeAssertionPanic"

fun bool_assert :: "iface \<Rightarrow> panic + bool" where
  "bool_assert (IBool b) = Inr b"
| "bool_assert _ = Inl TypeAssertionPanic"


section \<open>The Token (token.go)\<close>

record Token =
  Issuer :: string
  Audience :: string
  Expires :: int64
  IssuedAt :: int64
  Subject :: string
  UID :: string
  Claims :: gomap

subsection \<open>The accessors of the copy src/token.go\<close>

text \<open>
  The sources hold two copies of the accessors. In src/token.go every accessor is a
  single-value type assertion on the indexed claim,
  \<open>return t.Claims["auth_time"].(int64)\<close>, so it panics when the assertion fails.
\<close>

definition AuthTime :: "Token \<Rightarrow> panic + int64" where
  "AuthTime t = int64_assert (map_index (Claims t) ''auth_time'')"

definition Name :: "Token \<Rightarrow> panic + string" where
  "Name t = string_assert (map_index (Claims t) ''name'')"

definition Picture :: "Token \<Rightarrow> panic + string" where
  "Picture t = string_assert (map_index (Claims t) ''picture'')"

definition Email :: "Token \<Rightarrow> panic + string" where
  "Email t = string_assert (map_index (Claims t) ''email'')"

definition IsEmailVerified :: "Token \<Rightarrow> panic + bool" where
  "IsEmailVerified t = bool_assert (map_index (Claims t) ''email_verified'')"

subsection \<open>The accessors of the copy src/unnamed/part_002\<close>

text \<open>
  This copy uses the comma-ok form and falls back to the zero value:
  \<open>if res, ok := (t.Claims["auth_time"]).(int64); ok { return res }; return int64(0)\<close>.
  No branch of these functions panics, so they return plain values. It is the copy
  that the tests of src/unnamed/part_001 pass against, and the one the properties of
  the accessors are stated for.
\<close>

definition AuthTime_part002 :: "Token \<Rightarrow> int64" where
  "AuthTime_part002 t =
     (case int64_ok (map_index (Claims t) ''auth_time'') of
        (res, ok) \<Rightarrow> if ok then res else 0)"

definition Name_part002 :: "Token \<Rightarrow> string" where
  "Name_part002 t =
     (case string_ok (map_index (Claims t) ''name'') of
        (res, ok) \<Rightarrow> if ok then res else '''')"

definition Picture_part002 :: "Token \<Rightarrow> string" where
  "Picture_part002 t =
     (case string_ok (map_index (Claims t) ''picture'') of
        (res, ok) \<Rightarrow> if ok then res else '''')"

definition Email_part002 :: "Token \<Rightarrow> string" where
  "Email_part002 t =
     (case string_ok (map_index (Claims t) ''email'') of
        (res, ok) \<Rightarrow> if ok then res else '''')"

definition IsEmailVerified_part002 :: "Token \<Rightarrow> bool" where
  "IsEmailVerified_part002 t =
     (case bool_ok (map_index (Claims t) ''email_verified'') of
        (res, ok) \<Rightarrow> if ok then res else False)"

subsection \<open>GetClaims and SetClaims (the same in both copies)\<close>

definition GetClaims :: "Token \<Rightarrow> gomap" where
  "GetClaims t = Claims t"

text \<open>
  The assignment \<open>m[key] = val\<close> on a non-nil map replaces the value of a key the map
  holds and adds an entry otherwise.
\<close>

definition map_assign :: "string \<times> iface \<Rightarrow> (string \<times> iface) list \<Rightarrow> (string \<times> iface) list" where
  "map_assign kv own = AList.update (fst kv) (snd kv) own"

text \<open>
  \<open>SetClaims\<close>: a nil \<open>t.Claims\<close> is replaced by the argument; otherwise the loop
  \<open>for key, val := range claims { t.Claims[key] = val }\<close> runs over the entries of
  the argument in their iteration order (no iteration for a nil argument). In the first
  case the Token shares the caller's map afterwards; the model keeps its contents.
\<close>

definition SetClaims :: "Token \<Rightarrow> gomap \<Rightarrow> Token" where
  "SetClaims t claims =
     (case Claims t of
        None \<Rightarrow> t\<lparr>Claims := claims\<rparr>
      | Some own \<Rightarrow>
          (case claims of
             None \<Rightarrow> t
           | Some kvs \<Rightarrow> t\<lparr>Claims := Some (fold map_assign kvs own)\<rparr>))"

text \<open>The token built by \<open>TestTokenEmptyClaims\<close> (src/unnamed/part_001).\<close>

definition empty_claims_token :: Token where
  "empty_claims_token =
     \<lparr>Issuer = ''iss'', Audience = ''aud'', Expires = 100, IssuedAt = 100,
      Subject = ''sub'', UID = ''uid'', Claims = Some []\<rparr>"


section \<open>Errors, account records and wire payloads\<close>

text \<open>
  The package's error values. \<open>ErrorString msg\<close> is \<open>errors.New(msg)\<close> and
  \<open>Wrap err msg\<close> is \<open>errors.Wrap(err, msg)\<close>; \<open>TransportFailure\<close> is the
  dispatcher's wrapping of a failed round trip.
\<close>

datatype error =
    errIllegalType
  | errMissingRequestTarget
  | AuthErrUserNotFound
  | ErrorString string
  | Wrap error string
  | TransportFailure error

text \<open>
  The account record. Its declaration is not among the sources; the fields are the ones
  the sources read (\<open>user.UID\<close>, \<open>user.TokensValidAfterMillis\<close>), and
  \<open>TokensValidAfterMillis\<close> is an \<open>int64\<close> because Go compares it with an
  \<open>int64\<close> without a conversion.
\<close>

record UserRecord =
  UserRecord_UID :: string
  TokensValidAfterMillis :: int64

text \<open>
  The request and response structs. \<open>getAccountInfoRequest\<close> and
  \<open>getAccountInfoResponse\<close> are declared outside the sources; the validators only
  take the \<open>len\<close> of their fields.
\<close>

record getAccountInfoRequest =
  LocalID :: "string list"
  Request_Email :: "string list"

record getAccountInfoResponse =
  Users :: "UserRecord list"

record createSessionCookieRequest =
  IDToken :: string
  Duration :: int64

record createSessionCookieResponse =
  SessionCookie :: string

text \<open>
  The \<open>interface{}\<close> argument of a validator: a pointer to one of the structs, tagged
  with its dynamic type.
\<close>

datatype payload =
    GetAccountInfoRequest getAccountInfoRequest
  | GetAccountInfoResponse getAccountInfoResponse
  | CreateSessionCookieRequest createSessionCookieRequest
  | CreateSessionCookieResponse createSessionCookieResponse

text \<open>The settings of one remote operation; \<open>http_method\<close> is the field \<open>method\<close>.\<close>

record apiSettings =
  http_method :: string
  endpoint :: string
  reqFn :: "payload \<Rightarrow> error option"
  respFn :: "payload \<Rightarrow> error option"

text \<open>
  \<open>createSessionCookieAPI\<close> as in the current copy of session_api_request.go (lines
  144 to 163). Both validators assert the types of the account lookup:
  \<open>src.(*getAccountInfoRequest)\<close> and \<open>src.(*getAccountInfoResponse)\<close>.
\<close>

definition createSessionCookieAPI :: apiSettings where
  "createSessionCookieAPI =
     \<lparr>http_method = ''POST'',
      endpoint = ''createSessionCookie'',
      reqFn = (\<lambda>src.
        case src of
          GetAccountInfoRequest r \<Rightarrow>
            if length (LocalID r) = 0 \<and> length (Request_Email r) = 0
            then Some errMissingRequestTarget else None
        | _ \<Rightarrow> Some errIllegalType),
      respFn = (\<lambda>src.
        case src of
          GetAccountInfoResponse r \<Rightarrow> None
        | _ \<Rightarrow> Some errIllegalType)\<rparr>"


section \<open>Applications and Auth instances (auth.go)\<close>

text \<open>
  \<open>App\<close> and its options are declared outside the sources; the fields are the ones
  auth.go reads.
\<close>

record Credential =
  ProjectID :: string

record Options =
  ServiceAccountCredential :: Credential

record App =
  name :: string
  options :: Options

record Auth =
  app :: App


section \<open>The collaborators and the trace of their calls\<close>

text \<open>
  Every call that leaves the functions of the sources is recorded, in order.
\<close>

datatype event =
    TokenSourceEnsured
  | ServiceAccountEnsured
  | VerifierBuilt string
  | TokenVerified string
  | AccountFetched string
  | Called string payload
  | RoundTrip string string payload

text \<open>
  The functions the sources call but do not contain are parameters. Each may answer
  differently as the trace grows, so two calls with the same arguments need not agree.
  A verifier is the function its \<open>VerifyToken\<close> method computes.
\<close>

type_synonym verifier = "event list \<Rightarrow> string \<Rightarrow> error + Token"

record backend =
  tokenSource :: "event list \<Rightarrow> Auth \<Rightarrow> error option"
  serviceAccount :: "event list \<Rightarrow> Options \<Rightarrow> error option"
  idTokenVerifier :: "event list \<Rightarrow> string \<Rightarrow> error + verifier"
  accountByUID :: "event list \<Rightarrow> string \<Rightarrow> error + UserRecord"
  roundTrip :: "event list \<Rightarrow> string \<Rightarrow> string \<Rightarrow> payload \<Rightarrow> payload \<Rightarrow> error + payload"

definition ensureTokenSource ::
  "backend \<Rightarrow> Auth \<Rightarrow> event list \<Rightarrow> error option \<times> event list" where
  "ensureTokenSource h auth s = (tokenSource h s auth, s @ [TokenSourceEnsured])"

definition ensureServiceAccount ::
  "backend \<Rightarrow> Options \<Rightarrow> event list \<Rightarrow> error option \<times> event list" where
  "ensureServiceAccount h opts s = (serviceAccount h s opts, s @ [ServiceAccountEnsured])"

definition newIDTokenVerifier ::
  "backend \<Rightarrow> string \<Rightarrow> event list \<Rightarrow> (error + verifier) \<times> event list" where
  "newIDTokenVerifier h projectID s =
     (idTokenVerifier h s projectID, s @ [VerifierBuilt projectID])"

definition VerifyToken ::
  "verifier \<Rightarrow> string \<Rightarrow> event list \<Rightarrow> (error + Token) \<times> event list" where
  "VerifyToken v tokenString s = (v s tokenString, s @ [TokenVerified tokenString])"

definition getAccountByUID ::
  "backend \<Rightarrow> string \<Rightarrow> event list \<Rightarrow> (error + UserRecord) \<times> event list" where
  "getAccountByUID h uid s = (accountByUID h s uid, s @ [AccountFetched uid])"

text \<open>
  Modelled from the spec: \<open>requestHandler.call\<close>, the request dispatcher, is not
  among the sources. Section 4.4: before sending, the request validator runs, and if it
  reports an error the call aborts without a network round trip; after receiving and
  decoding the response, the response validator runs; a validator failure is returned
  verbatim, a transport failure is wrapped. The response struct is filled in place, so
  the call gives back its new contents. \<open>Called\<close> records the request handed to the
  dispatcher and \<open>RoundTrip\<close> the one sent to the backend.
\<close>

definition call ::
  "backend \<Rightarrow> apiSettings \<Rightarrow> payload \<Rightarrow> payload \<Rightarrow> event list
     \<Rightarrow> (error option \<times> payload) \<times> event list" where
  "call h api req resp s =
     (let s0 = s @ [Called (endpoint api) req] in
      case reqFn api req of
        Some err \<Rightarrow> ((Some err, resp), s0)
      | None \<Rightarrow>
          (let s1 = s0 @ [RoundTrip (http_method api) (endpoint api) req] in
           case roundTrip h s0 (http_method api) (endpoint api) req resp of
             Inl err \<Rightarrow> ((Some (TransportFailure err), resp), s1)
           | Inr filled \<Rightarrow>
               (case respFn api filled of
                  Some err \<Rightarrow> ((Some err, filled), s1)
                | None \<Rightarrow> ((None, filled), s1))))"


section \<open>The session cookie manager (session_api_request.go, current copy)\<close>

text \<open>
  The file holds two copies. The first (lines 1 to 136) calls \<open>token.UID()\<close> and
  \<open>token.IssuedAt()\<close> as methods, which the \<open>Token\<close> struct of token.go does not
  have; the second (lines 144 to 241) reads the fields \<open>token.UID\<close> and
  \<open>token.IssuedAt\<close>, as auth.go does. The second copy is the one embedded here.
\<close>

text \<open>The field \<open>resp.SessionCookie\<close> of the response struct the call filled.\<close>

definition sessionCookieOf :: "payload \<Rightarrow> string" where
  "sessionCookieOf resp =
     (case resp of CreateSessionCookieResponse r \<Rightarrow> SessionCookie r | _ \<Rightarrow> '''')"

definition createSessionCookie ::
  "backend \<Rightarrow> string \<Rightarrow> int64 \<Rightarrow> event list \<Rightarrow> (error + string) \<times> event list" where
  "createSessionCookie h idToken duration s =
     (let req = CreateSessionCookieRequest \<lparr>IDToken = idToken, Duration = duration\<rparr>;
          resp = CreateSessionCookieResponse \<lparr>SessionCookie = ''''\<rparr>
      in case call h createSessionCookieAPI req resp s of
           ((Some err, filled), s1) \<Rightarrow> (Inl err, s1)
         | ((None, filled), s1) \<Rightarrow> (Inr (sessionCookieOf filled), s1))"

definition verifySessionCookie ::
  "backend \<Rightarrow> string \<Rightarrow> string \<Rightarrow> event list \<Rightarrow> (error + Token) \<times> event list" where
  "verifySessionCookie h projectID cookie s =
     (case newIDTokenVerifier h projectID s of
        (Inl err, s1) \<Rightarrow> (Inl err, s1)
      | (Inr verifier, s1) \<Rightarrow> VerifyToken verifier cookie s1)"

definition checkRevoked ::
  "backend \<Rightarrow> Token \<Rightarrow> event list \<Rightarrow> (error + bool) \<times> event list" where
  "checkRevoked h token s =
     (let uid = UID token in
      case getAccountByUID h uid s of
        (Inl err, s1) \<Rightarrow> (Inl err, s1)
      | (Inr user, s1) \<Rightarrow>
          (let iat = IssuedAt token in
           (Inr (iat * 1000 <s TokensValidAfterMillis user), s1)))"

definition checkSessionCookieRevoked ::
  "backend \<Rightarrow> string \<Rightarrow> string \<Rightarrow> event list \<Rightarrow> (error + bool) \<times> event list" where
  "checkSessionCookieRevoked h projectID cookie s =
     (case verifySessionCookie h projectID cookie s of
        (Inl err, s1) \<Rightarrow> (Inl err, s1)
      | (Inr token, s1) \<Rightarrow> checkRevoked h token s1)"

definition verifySessionCookieAndCheckRevoked ::
  "backend \<Rightarrow> string \<Rightarrow> string \<Rightarrow> event list \<Rightarrow> (error + UserRecord) \<times> event list" where
  "verifySessionCookieAndCheckRevoked h projectID cookie s =
     (case verifySessionCookie h projectID cookie s of
        (Inl err, s1) \<Rightarrow> (Inl err, s1)
      | (Inr token, s1) \<Rightarrow>
          (case checkRevoked h token s1 of
             (Inl err, s2) \<Rightarrow> (Inl err, s2)
           | (Inr valid, s2) \<Rightarrow>
               if \<not> valid then (Inl (ErrorString ''Token has been revoked''), s2)
               else (let uid = UID token in getAccountByUID h uid s2)))"


section \<open>Durations in seconds (the Go library's time.Duration.Seconds)\<close>

text \<open>
  A finite \<open>float64\<close> is the rational number it denotes. \<open>float64_round\<close> is the
  rounding every \<open>float64\<close> operation ends with: to the nearest number with a 53-bit
  significand, ties to the even significand. Exponent overflow and subnormal numbers
  are left out: the magnitudes that occur below lie between \<open>10^-9\<close> and \<open>10^10\<close>.
\<close>

type_synonym float64 = rat

definition pow2 :: "int \<Rightarrow> rat" where
  "pow2 e = (if 0 \<le> e then 2 ^ nat e else 1 / 2 ^ nat (- e))"

definition round_even :: "rat \<Rightarrow> int" where
  "round_even q =
     (let f = \<lfloor>q\<rfloor>; r = q - of_int f
      in if r < 1 / 2 then f
         else if 1 / 2 < r then f + 1
         else if even f then f else f + 1)"

text \<open>For \<open>0 < x\<close>, the exponent \<open>e\<close> with \<open>2^e \<le> x < 2^(e+1)\<close>.\<close>

definition binade :: "rat \<Rightarrow> int" where
  "binade x =
     (case quotient_of x of
        (p, q) \<Rightarrow> (let k = bitlen p - bitlen q in if pow2 k \<le> x then k else k - 1))"

definition float64_round :: "rat \<Rightarrow> float64" where
  "float64_round x =
     (if x = 0 then 0
      else (let u = pow2 (binade \<bar>x\<bar> - 52)
            in sgn x * of_int (round_even (\<bar>x\<bar> / u)) * u))"

definition float64_of_int :: "int \<Rightarrow> float64" where
  "float64_of_int n = float64_round (of_int n)"

definition float64_add :: "float64 \<Rightarrow> float64 \<Rightarrow> float64" where
  "float64_add a b = float64_round (a + b)"

definition float64_div :: "float64 \<Rightarrow> float64 \<Rightarrow> float64" where
  "float64_div a b = float64_round (a / b)"

text \<open>
  The conversion \<open>int64(f)\<close> discards the fraction (truncation towards zero).
\<close>

definition int64_of_float64 :: "float64 \<Rightarrow> int64" where
  "int64_of_float64 f = word_of_int (if 0 \<le> f then \<lfloor>f\<rfloor> else \<lceil>f\<rceil>)"

text \<open>
  A \<open>time.Duration\<close> is an \<open>int64\<close> count of nanoseconds. The library computes
  \<open>sec := d / Second; nsec := d % Second; return float64(sec) + float64(nsec)/1e9\<close>,
  with Go's truncating division and remainder.
\<close>

definition Second :: int where
  "Second = 1000000000"

definition Hour :: int64 where
  "Hour = 3600000000000"

definition Seconds :: "int64 \<Rightarrow> float64" where
  "Seconds d =
     (let sec = sint d sdiv Second;
          nsec = sint d smod Second
      in float64_add (float64_of_int sec) (float64_div (float64_of_int nsec) 1000000000))"


section \<open>The Auth facade and its registry (auth.go)\<close>

text \<open>
  \<open>authInstances\<close>: its field \<open>m\<close> (here \<open>instances_m\<close>) is the map from
  application names to \<open>*Auth\<close>. A pointer is the index of its object in the list of
  allocated \<open>Auth\<close> objects, so pointer equality is equality of indices; \<open>None\<close> is
  the nil pointer. The mutex makes each call atomic; calls are taken one after the
  other. A nil \<open>*App\<close> panics on \<open>app.name\<close>, before the lock is taken.
\<close>

record authInstances =
  instances_m :: "string \<rightharpoonup> nat"
  allocated :: "Auth list"

definition GetAuthWithApp ::
  "App option \<Rightarrow> authInstances \<Rightarrow> (panic + nat option \<times> error option) \<times> authInstances" where
  "GetAuthWithApp app_ptr r =
     (case app_ptr of
        None \<Rightarrow> (Inl NilPointerDereference, r)
      | Some a \<Rightarrow>
          (let appName = name a;
               r1 = (if instances_m r appName = None
                     then r\<lparr>instances_m := (instances_m r)(appName \<mapsto> length (allocated r)),
                            allocated := allocated r @ [\<lparr>app = a\<rparr>]\<rparr>
                     else r)
           in (Inr (instances_m r1 appName, None), r1)))"

text \<open>Further calls of \<open>GetAuthWithApp\<close>, one after the other, results dropped.\<close>

fun GetAuthWithApp_calls :: "App option list \<Rightarrow> authInstances \<Rightarrow> authInstances" where
  "GetAuthWithApp_calls [] r = r"
| "GetAuthWithApp_calls (a # as) r = GetAuthWithApp_calls as (snd (GetAuthWithApp a r))"

text \<open>
  \<open>VerifyIDTokenWithTransport\<close> does not use its \<open>transport\<close> argument, which is
  therefore left out.
\<close>

definition VerifyIDTokenWithTransport ::
  "backend \<Rightarrow> Auth \<Rightarrow> string \<Rightarrow> event list \<Rightarrow> (error + Token) \<times> event list" where
  "VerifyIDTokenWithTransport h a tokenString s =
     (case ensureServiceAccount h (options (app a)) s of
        (Some err, s1) \<Rightarrow> (Inl err, s1)
      | (None, s1) \<Rightarrow>
          (let projectID = ProjectID (ServiceAccountCredential (options (app a)))
           in case newIDTokenVerifier h projectID s1 of
                (Inl err, s2) \<Rightarrow> (Inl err, s2)
              | (Inr verifier, s2) \<Rightarrow> VerifyToken verifier tokenString s2))"

definition VerifyIDToken ::
  "backend \<Rightarrow> Auth \<Rightarrow> string \<Rightarrow> event list \<Rightarrow> (error + Token) \<times> event list" where
  "VerifyIDToken h a tokenString s = VerifyIDTokenWithTransport h a tokenString s"

text \<open>
  \<open>CreateSessionCookie\<close>; the duration is a pointer, \<open>None\<close> when nil.
\<close>

definition CreateSessionCookie ::
  "backend \<Rightarrow> Auth \<Rightarrow> string \<Rightarrow> int64 option \<Rightarrow> event list
     \<Rightarrow> (error + string) \<times> event list" where
  "CreateSessionCookie h auth idToken duration s =
     (case ensureTokenSource h auth s of
        (Some err, s1) \<Rightarrow> (Inl (Wrap err ''Error ensuring token source''), s1)
      | (None, s1) \<Rightarrow>
          (case VerifyIDToken h auth idToken s1 of
             (Inl err, s2) \<Rightarrow> (Inl err, s2)
           | (Inr token, s2) \<Rightarrow>
               (let expiry = int64_of_float64 (Seconds (Hour * 24 * 5));
                    expiry = (case duration of
                                None \<Rightarrow> expiry
                              | Some d \<Rightarrow> int64_of_float64 (Seconds d))
                in createSessionCookie h idToken expiry s2)))"


section \<open>Notions used to state the properties\<close>

text \<open>The entries of a map as a partial function from keys to values.\<close>

definition map_entries :: "gomap \<Rightarrow> string \<rightharpoonup> iface" where
  "map_entries c = (case c of None \<Rightarrow> Map.empty | Some kvs \<Rightarrow> map_of kvs)"

text \<open>
  The error the first copy of session_api_request.go (line 122) returns when the token
  gives no user id; the current copy has no such error.
\<close>

definition MissingUID :: error where
  "MissingUID = ErrorString ''User id could not be retrieved from token''"

text \<open>A verification accepts when it returns a token.\<close>

definition accepts :: "(error + Token) \<times> event list \<Rightarrow> bool" where
  "accepts r = (case fst r of Inl err \<Rightarrow> False | Inr token \<Rightarrow> True)"

text \<open>The project an \<open>Auth\<close> verifies for: \<open>a.app.options.ServiceAccountCredential.ProjectID\<close>.\<close>

definition projectOf :: "Auth \<Rightarrow> string" where
  "projectOf a = ProjectID (ServiceAccountCredential (options (app a)))"

text \<open>The events of the dispatcher: a request handed to it, a request sent to the backend.\<close>

fun is_dispatch :: "event \<Rightarrow> bool" where
  "is_dispatch (Called ep req) = True"
| "is_dispatch (RoundTrip mth ep req) = True"
| "is_dispatch _ = False"


text \<open>
  The registry is in order when every pointer it holds denotes an allocated
  \<open>Auth\<close> whose application has the name the pointer is registered under. The
  empty registry is in order and \<open>GetAuthWithApp\<close> keeps it so.
\<close>

definition registry_ok :: "authInstances \<Rightarrow> bool" where
  "registry_ok r =
     (\<forall>n p. instances_m r n = Some p \<longrightarrow>
        p < length (allocated r) \<and> name (app (allocated r ! p)) = n)"


section \<open>Concrete inputs\<close>

definition admin_claims :: gomap where
  "admin_claims = Some [(''role'', IString ''admin''), (''name'', IString ''alice'')]"

definition named_token :: Token where
  "named_token =
     empty_claims_token\<lparr>Claims := Some [(''name'', IString ''bob''), (''email'', IString ''b@x'')]\<rparr>"

text \<open>
  A token whose five claims all have another dynamic type than their accessor asserts,
  and the claims of \<open>TestTokenClaims\<close>.
\<close>

definition mistyped_token :: Token where
  "mistyped_token =
     empty_claims_token\<lparr>Claims := Some
       [(''auth_time'', IFloat64 0), (''name'', IInt64 7), (''picture'', INil),
        (''email'', IBool True), (''email_verified'', IString ''yes'')]\<rparr>"

definition full_token :: Token where
  "full_token =
     empty_claims_token\<lparr>Claims := Some
       [(''auth_time'', IInt64 1500000000), (''name'', IString ''test''),
        (''picture'', IString ''https://img.url.com/img.png''),
        (''email'', IString ''test@test.com''), (''email_verified'', IBool True)]\<rparr>"

text \<open>A token issued at second 2000000000 for the user \<open>alice\<close> of project \<open>demo\<close>.\<close>

definition alice_token :: Token where
  "alice_token =
     \<lparr>Issuer = ''https://securetoken.google.com/demo'', Audience = ''demo'',
      Expires = 2000003600, IssuedAt = 2000000000, Subject = ''alice'', UID = ''alice'',
      Claims = None\<rparr>"

text \<open>
  Collaborators that always answer the same: the credentials are in place, the verifier
  accepts the string \<open>cookie\<close> as \<open>alice_token\<close> and nothing else, the only account is
  \<open>alice\<close> with the given \<open>TokensValidAfterMillis\<close>, and the backend answers every
  request with the session cookie \<open>session\<close>.
\<close>

definition demo_backend :: "int64 \<Rightarrow> backend" where
  "demo_backend validAfter =
     \<lparr>tokenSource = (\<lambda>s auth. None),
      serviceAccount = (\<lambda>s opts. None),
      idTokenVerifier = (\<lambda>s projectID. Inr (\<lambda>s1 tokenString.
         if tokenString = ''cookie'' then Inr alice_token
         else Inl (ErrorString ''invalid token''))),
      accountByUID = (\<lambda>s uid.
         if uid = ''alice''
         then Inr \<lparr>UserRecord_UID = ''alice'', TokensValidAfterMillis = validAfter\<rparr>
         else Inl AuthErrUserNotFound),
      roundTrip = (\<lambda>s mth ep req resp.
         Inr (CreateSessionCookieResponse \<lparr>SessionCookie = ''session''\<rparr>))\<rparr>"

text \<open>The same collaborators without credentials for the bearer-token source.\<close>

definition offline_backend :: backend where
  "offline_backend =
     (demo_backend 0)\<lparr>tokenSource := (\<lambda>s auth. Some (ErrorString ''no credentials''))\<rparr>"

definition default_app :: App where
  "default_app =
     \<lparr>name = ''[DEFAULT]'', options = \<lparr>ServiceAccountCredential = \<lparr>ProjectID = ''demo''\<rparr>\<rparr>\<rparr>"

definition default_app_again :: App where
  "default_app_again =
     \<lparr>name = ''[DEFAULT]'', options = \<lparr>ServiceAccountCredential = \<lparr>ProjectID = ''other''\<rparr>\<rparr>\<rparr>"

definition second_app :: App where
  "second_app =
     \<lparr>name = ''second'', options = \<lparr>ServiceAccountCredential = \<lparr>ProjectID = ''demo''\<rparr>\<rparr>\<rparr>"

definition demo_auth :: Auth where
  "demo_auth = \<lparr>app = default_app\<rparr>"

definition no_instances :: authInstances where
  "no_instances = \<lparr>instances_m = Map.empty, allocated = []\<rparr>"


section \<open>Properties of the Token\<close>

subsection \<open>SetClaims\<close>

lemma map_of_fold_map_assign:
  "distinct (map fst kvs) \<Longrightarrow> map_of (fold map_assign kvs own) = map_of own ++ map_of kvs"
proof (induction kvs arbitrary: own)
  case Nil
  then show ?case by simp
next
  case (Cons kv kvs)
  obtain k v where kv: "kv = (k, v)" by (cases kv)
  from Cons.prems kv have fresh: "k \<notin> dom (map_of kvs)" and d: "distinct (map fst kvs)"
    by (auto simp: dom_map_of_conv_image_fst)
  have step: "map_assign kv own = AList.update k v own"
    using kv by (simp add: map_assign_def)
  have "map_of (fold map_assign (kv # kvs) own) = map_of (AList.update k v own) ++ map_of kvs"
    using Cons.IH [OF d, of "AList.update k v own"] by (simp add: step)
  also have "\<dots> = map_of own ++ map_of (kv # kvs)"
    using fresh kv by (auto simp: update_conv' map_add_def fun_eq_iff split: option.splits)
  finally show ?case .
qed

lemma distinct_fold_map_assign:
  "distinct (map fst own) \<Longrightarrow> distinct (map fst (fold map_assign kvs own))"
  by (induction kvs arbitrary: own) (auto simp: map_assign_def distinct_update)

lemma map_entries_SetClaims:
  "well_formed claims \<Longrightarrow>
   map_entries (Claims (SetClaims t claims)) = map_entries (Claims t) ++ map_entries claims"
  by (auto simp: SetClaims_def map_entries_def well_formed_def map_of_fold_map_assign
      split: option.splits)

text \<open>The loop keeps the keys of the token's map distinct.\<close>

lemma well_formed_SetClaims:
  "well_formed (Claims t) \<Longrightarrow> well_formed claims \<Longrightarrow> well_formed (Claims (SetClaims t claims))"
  by (auto simp: SetClaims_def well_formed_def distinct_fold_map_assign split: option.splits)

text \<open>
  C6. \<open>SetClaims\<close> is a merge: after \<open>t.SetClaims(m)\<close> every key of \<open>m\<close> is mapped by
  \<open>t.Claims\<close> to the value \<open>m\<close> gives it, every other key keeps what \<open>t.Claims\<close> held
  for it before (its value, or its absence), the fields Issuer, Audience, Expires,
  IssuedAt, Subject and UID are unchanged, and a nil \<open>t.Claims\<close> becomes \<open>m\<close>. The
  hypothesis is the shape of the representation: the entries of a Go map have distinct
  keys. The other methods of the Token return a value and assign nothing.
\<close>

theorem SetClaims_merge:
  assumes "well_formed claims"
  shows "(\<forall>k. k \<in> map_keys claims \<longrightarrow>
            map_entries (Claims (SetClaims t claims)) k = map_entries claims k)
       \<and> (\<forall>k. k \<notin> map_keys claims \<longrightarrow>
            map_entries (Claims (SetClaims t claims)) k = map_entries (Claims t) k)
       \<and> Issuer (SetClaims t claims) = Issuer t
       \<and> Audience (SetClaims t claims) = Audience t
       \<and> Expires (SetClaims t claims) = Expires t
       \<and> IssuedAt (SetClaims t claims) = IssuedAt t
       \<and> Subject (SetClaims t claims) = Subject t
       \<and> UID (SetClaims t claims) = UID t
       \<and> (Claims t = None \<longrightarrow> Claims (SetClaims t claims) = claims)"
proof -
  have keys: "map_keys claims = dom (map_entries claims)"
    by (simp add: map_keys_def map_entries_def dom_map_of_conv_image_fst split: option.splits)
  have merge:
    "map_entries (Claims (SetClaims t claims)) = map_entries (Claims t) ++ map_entries claims"
    using assms by (rule map_entries_SetClaims)
  have inside: "\<forall>k. k \<in> map_keys claims \<longrightarrow>
      map_entries (Claims (SetClaims t claims)) k = map_entries claims k"
    unfolding merge keys by (auto simp: map_add_def split: option.splits)
  have outside: "\<forall>k. k \<notin> map_keys claims \<longrightarrow>
      map_entries (Claims (SetClaims t claims)) k = map_entries (Claims t) k"
    unfolding merge keys by (auto simp: map_add_def split: option.splits)
  have frame: "Issuer (SetClaims t claims) = Issuer t \<and> Audience (SetClaims t claims) = Audience t
       \<and> Expires (SetClaims t claims) = Expires t \<and> IssuedAt (SetClaims t claims) = IssuedAt t
       \<and> Subject (SetClaims t claims) = Subject t \<and> UID (SetClaims t claims) = UID t"
    by (simp add: SetClaims_def split: option.splits)
  have nil: "Claims t = None \<longrightarrow> Claims (SetClaims t claims) = claims"
    by (simp add: SetClaims_def)
  from inside outside frame nil show ?thesis by blast
qed

text \<open>
  C6 at a concrete input: merging \<open>{role: admin, name: alice}\<close> into a token that holds
  \<open>{name: bob, email: b@x}\<close> overwrites the name, adds the role and keeps the email.
\<close>

theorem SetClaims_merge_witness:
  "well_formed admin_claims
   \<and> map_entries (Claims (SetClaims named_token admin_claims)) ''name'' = Some (IString ''alice'')
   \<and> map_entries (Claims (SetClaims named_token admin_claims)) ''role'' = Some (IString ''admin'')
   \<and> map_entries (Claims (SetClaims named_token admin_claims)) ''email'' = Some (IString ''b@x'')
   \<and> UID (SetClaims named_token admin_claims) = ''uid''
   \<and> Claims (SetClaims (named_token\<lparr>Claims := None\<rparr>) admin_claims) = admin_claims"
proof -
  have wf: "well_formed admin_claims"
    by (simp add: well_formed_def admin_claims_def)
  have name: "''name'' \<in> map_keys admin_claims" and role: "''role'' \<in> map_keys admin_claims"
    and email: "''email'' \<notin> map_keys admin_claims"
    by (simp_all add: map_keys_def admin_claims_def)
  note m = SetClaims_merge [OF wf, of named_token]
  note n = SetClaims_merge [OF wf, of "named_token\<lparr>Claims := None\<rparr>"]
  from m name
  have 1: "map_entries (Claims (SetClaims named_token admin_claims)) ''name'' = Some (IString ''alice'')"
    by (simp add: map_entries_def admin_claims_def)
  from m role
  have 2: "map_entries (Claims (SetClaims named_token admin_claims)) ''role'' = Some (IString ''admin'')"
    by (simp add: map_entries_def admin_claims_def)
  from m email
  have 3: "map_entries (Claims (SetClaims named_token admin_claims)) ''email'' = Some (IString ''b@x'')"
    by (simp add: map_entries_def named_token_def)
  from m have 4: "UID (SetClaims named_token admin_claims) = ''uid''"
    by (simp add: named_token_def empty_claims_token_def)
  from n have 5: "Claims (SetClaims (named_token\<lparr>Claims := None\<rparr>) admin_claims) = admin_claims"
    by simp
  from wf 1 2 3 4 5 show ?thesis by blast
qed

subsection \<open>The accessors: the fallback of the comma-ok form\<close>

lemma AuthTime_part002_zero:
  "(\<And>n. map_index (Claims t) ''auth_time'' \<noteq> IInt64 n) \<Longrightarrow> AuthTime_part002 t = 0"
  by (cases "map_index (Claims t) ''auth_time''") (auto simp: AuthTime_part002_def)

lemma Name_part002_zero:
  "(\<And>n. map_index (Claims t) ''name'' \<noteq> IString n) \<Longrightarrow> Name_part002 t = []"
  by (cases "map_index (Claims t) ''name''") (auto simp: Name_part002_def)

lemma Picture_part002_zero:
  "(\<And>n. map_index (Claims t) ''picture'' \<noteq> IString n) \<Longrightarrow> Picture_part002 t = []"
  by (cases "map_index (Claims t) ''picture''") (auto simp: Picture_part002_def)

lemma Email_part002_zero:
  "(\<And>n. map_index (Claims t) ''email'' \<noteq> IString n) \<Longrightarrow> Email_part002 t = []"
  by (cases "map_index (Claims t) ''email''") (auto simp: Email_part002_def)

lemma IsEmailVerified_part002_zero:
  "(\<And>b. map_index (Claims t) ''email_verified'' \<noteq> IBool b) \<Longrightarrow>
   IsEmailVerified_part002 t = False"
  by (cases "map_index (Claims t) ''email_verified''") (auto simp: IsEmailVerified_part002_def)

subsection \<open>The accessors\<close>

text \<open>
  C8. The accessors of the comma-ok copy (src/unnamed/part_002, the copy that
  \<open>TestTokenEmptyClaims\<close> passes against) return plain values: no branch of them
  panics. For every Token whose claims map is non-nil, each accessor returns the zero
  value of its result type (0, the empty string, false) whenever the map does not hold
  a value of the accessor's type under its key, that is, when the key is missing or
  its value has another dynamic type; and it returns the value when the map holds one
  of that type.
\<close>

theorem part002_accessors_zero:
  assumes "Claims t = Some kvs"
  shows "((\<forall>n. map_of kvs ''auth_time'' \<noteq> Some (IInt64 n)) \<longrightarrow> AuthTime_part002 t = 0)
       \<and> ((\<forall>v. map_of kvs ''name'' \<noteq> Some (IString v)) \<longrightarrow> Name_part002 t = [])
       \<and> ((\<forall>v. map_of kvs ''picture'' \<noteq> Some (IString v)) \<longrightarrow> Picture_part002 t = [])
       \<and> ((\<forall>v. map_of kvs ''email'' \<noteq> Some (IString v)) \<longrightarrow> Email_part002 t = [])
       \<and> ((\<forall>v. map_of kvs ''email_verified'' \<noteq> Some (IBool v)) \<longrightarrow>
            IsEmailVerified_part002 t = False)
       \<and> (\<forall>n. map_of kvs ''auth_time'' = Some (IInt64 n) \<longrightarrow> AuthTime_part002 t = n)
       \<and> (\<forall>v. map_of kvs ''name'' = Some (IString v) \<longrightarrow> Name_part002 t = v)
       \<and> (\<forall>v. map_of kvs ''picture'' = Some (IString v) \<longrightarrow> Picture_part002 t = v)
       \<and> (\<forall>v. map_of kvs ''email'' = Some (IString v) \<longrightarrow> Email_part002 t = v)
       \<and> (\<forall>v. map_of kvs ''email_verified'' = Some (IBool v) \<longrightarrow>
            IsEmailVerified_part002 t = v)"
proof -
  have idx: "map_index (Claims t) k = (case map_of kvs k of None \<Rightarrow> INil | Some v \<Rightarrow> v)" for k
    using assms by (simp add: map_index_def)
  have a0: "(\<forall>n. map_of kvs ''auth_time'' \<noteq> Some (IInt64 n)) \<longrightarrow> AuthTime_part002 t = 0"
    by (rule impI, rule AuthTime_part002_zero) (auto simp: idx split: option.splits)
  have n0: "(\<forall>v. map_of kvs ''name'' \<noteq> Some (IString v)) \<longrightarrow> Name_part002 t = []"
    by (rule impI, rule Name_part002_zero) (auto simp: idx split: option.splits)
  have p0: "(\<forall>v. map_of kvs ''picture'' \<noteq> Some (IString v)) \<longrightarrow> Picture_part002 t = []"
    by (rule impI, rule Picture_part002_zero) (auto simp: idx split: option.splits)
  have e0: "(\<forall>v. map_of kvs ''email'' \<noteq> Some (IString v)) \<longrightarrow> Email_part002 t = []"
    by (rule impI, rule Email_part002_zero) (auto simp: idx split: option.splits)
  have v0: "(\<forall>v. map_of kvs ''email_verified'' \<noteq> Some (IBool v)) \<longrightarrow>
            IsEmailVerified_part002 t = False"
    by (rule impI, rule IsEmailVerified_part002_zero) (auto simp: idx split: option.splits)
  have a1: "\<forall>n. map_of kvs ''auth_time'' = Some (IInt64 n) \<longrightarrow> AuthTime_part002 t = n"
    by (simp add: AuthTime_part002_def idx)
  have n1: "\<forall>v. map_of kvs ''name'' = Some (IString v) \<longrightarrow> Name_part002 t = v"
    by (simp add: Name_part002_def idx)
  have p1: "\<forall>v. map_of kvs ''picture'' = Some (IString v) \<longrightarrow> Picture_part002 t = v"
    by (simp add: Picture_part002_def idx)
  have e1: "\<forall>v. map_of kvs ''email'' = Some (IString v) \<longrightarrow> Email_part002 t = v"
    by (simp add: Email_part002_def idx)
  have v1: "\<forall>v. map_of kvs ''email_verified'' = Some (IBool v) \<longrightarrow>
            IsEmailVerified_part002 t = v"
    by (simp add: IsEmailVerified_part002_def idx)
  from a0 n0 p0 e0 v0 a1 n1 p1 e1 v1 show ?thesis by blast
qed

text \<open>
  C8 at concrete inputs: the token of \<open>TestTokenEmptyClaims\<close> (no key at all), a token
  whose five claims all have another dynamic type, and a token whose claims are as the
  accessors expect them.
\<close>

theorem part002_accessors_zero_witness:
  "Claims empty_claims_token = Some []
   \<and> AuthTime_part002 empty_claims_token = 0
   \<and> Name_part002 empty_claims_token = []
   \<and> Picture_part002 empty_claims_token = []
   \<and> Email_part002 empty_claims_token = []
   \<and> IsEmailVerified_part002 empty_claims_token = False
   \<and> AuthTime_part002 mistyped_token = 0
   \<and> Name_part002 mistyped_token = []
   \<and> Picture_part002 mistyped_token = []
   \<and> Email_part002 mistyped_token = []
   \<and> IsEmailVerified_part002 mistyped_token = False
   \<and> AuthTime_part002 full_token = 1500000000
   \<and> Name_part002 full_token = ''test''"
proof -
  have e: "Claims empty_claims_token = Some []"
    by (simp add: empty_claims_token_def)
  have m: "Claims mistyped_token = Some
       [(''auth_time'', IFloat64 0), (''name'', IInt64 7), (''picture'', INil),
        (''email'', IBool True), (''email_verified'', IString ''yes'')]"
    by (simp add: mistyped_token_def)
  have f: "Claims full_token = Some
       [(''auth_time'', IInt64 1500000000), (''name'', IString ''test''),
        (''picture'', IString ''https://img.url.com/img.png''),
        (''email'', IString ''test@test.com''), (''email_verified'', IBool True)]"
    by (simp add: full_token_def)
  from part002_accessors_zero [OF e]
  have 1: "AuthTime_part002 empty_claims_token = 0
   \<and> Name_part002 empty_claims_token = []
   \<and> Picture_part002 empty_claims_token = []
   \<and> Email_part002 empty_claims_token = []
   \<and> IsEmailVerified_part002 empty_claims_token = False"
    by simp
  from part002_accessors_zero [OF m]
  have 2: "AuthTime_part002 mistyped_token = 0
   \<and> Name_part002 mistyped_token = []
   \<and> Picture_part002 mistyped_token = []
   \<and> Email_part002 mistyped_token = []
   \<and> IsEmailVerified_part002 mistyped_token = False"
    by simp
  from part002_accessors_zero [OF f]
  have 3: "AuthTime_part002 full_token = 1500000000 \<and> Name_part002 full_token = ''test''"
    by simp
  from e 1 2 3 show ?thesis by blast
qed

text \<open>
  The other copy, src/token.go, asserts the type in the single-value form: on the token
  of \<open>TestTokenEmptyClaims\<close> each of its accessors panics. It is the copy that the
  repository's test fails against.
\<close>

lemma token_go_accessors_panic:
  "AuthTime empty_claims_token = Inl TypeAssertionPanic
   \<and> Name empty_claims_token = Inl TypeAssertionPanic
   \<and> Picture empty_claims_token = Inl TypeAssertionPanic
   \<and> Email empty_claims_token = Inl TypeAssertionPanic
   \<and> IsEmailVerified empty_claims_token = Inl TypeAssertionPanic"
  by (simp add: AuthTime_def Name_def Picture_def Email_def IsEmailVerified_def
      empty_claims_token_def map_index_def)


section \<open>Properties of the session cookie manager\<close>

subsection \<open>The revocation check\<close>

text \<open>
  The product \<open>iat * 1000\<close> is an \<open>int64\<close> product and wraps around; it is the
  product of the integers when the issued-at value is at most 9223372036854775 in
  magnitude.
\<close>

lemma sint_times_1000:
  fixes iat :: int64
  assumes "- 9223372036854775 \<le> sint iat" and "sint iat \<le> 9223372036854775"
  shows "sint (iat * 1000) = sint iat * 1000"
proof -
  have "sint (iat * 1000) = signed_take_bit 63 (sint iat * 1000)"
    by (simp add: sint_word_ariths)
  also have "\<dots> = sint iat * 1000"
    using assms by (intro signed_take_bit_int_eq_self) simp_all
  finally show ?thesis .
qed

text \<open>
  C2, amended. For every token whose user-id resolves to an account record and whose
  issued-at value times 1000 fits an \<open>int64\<close> (issued-at between -9223372036854775 and
  9223372036854775 seconds), \<open>checkRevoked\<close> returns true exactly when issued-at times
  1000 is strictly less than the account's \<open>TokensValidAfterMillis\<close>; when the two
  are equal, the comparison is false and it returns false.
\<close>

theorem checkRevoked_iff:
  assumes "accountByUID h s (UID token) = Inr user"
    and "- 9223372036854775 \<le> sint (IssuedAt token)"
    and "sint (IssuedAt token) \<le> 9223372036854775"
  shows "fst (checkRevoked h token s)
           = Inr (sint (IssuedAt token) * 1000 < sint (TokensValidAfterMillis user))"
  using assms
  by (simp add: checkRevoked_def getAccountByUID_def word_sless_alt sint_times_1000)

text \<open>
  C2 at concrete inputs: a token issued at second 2000000000 is not revoked when the
  account's threshold is exactly 2000000000000 milliseconds, and is revoked when the
  threshold is one millisecond later.
\<close>

theorem checkRevoked_iff_witness:
  "accountByUID (demo_backend 2000000000000) [] (UID alice_token)
     = Inr \<lparr>UserRecord_UID = ''alice'', TokensValidAfterMillis = 2000000000000\<rparr>
   \<and> fst (checkRevoked (demo_backend 2000000000000) alice_token []) = Inr False
   \<and> fst (checkRevoked (demo_backend 2000000000001) alice_token []) = Inr True"
proof -
  have u: "accountByUID (demo_backend v) [] (UID alice_token)
     = Inr \<lparr>UserRecord_UID = ''alice'', TokensValidAfterMillis = v\<rparr>" for v
    by (simp add: demo_backend_def alice_token_def)
  have lo: "- 9223372036854775 \<le> sint (IssuedAt alice_token)"
    and hi: "sint (IssuedAt alice_token) \<le> 9223372036854775"
    by (simp_all add: alice_token_def)
  from checkRevoked_iff [OF u lo hi, of 2000000000000]
       checkRevoked_iff [OF u lo hi, of 2000000000001] u [of 2000000000000]
  show ?thesis by (simp add: alice_token_def)
qed

text \<open>
  C2 as stated fails where the product overflows: for an issued-at value of \<open>2^62\<close>
  seconds the \<open>int64\<close> product is 0, so the token counts as revoked against a
  threshold of 1 millisecond, although \<open>2^62 * 1000\<close> is not less than 1.
\<close>

theorem checkRevoked_overflow_counterexample:
  "fst (checkRevoked (demo_backend 1) (alice_token\<lparr>IssuedAt := 4611686018427387904\<rparr>) [])
     = Inr True
   \<and> \<not> (sint (4611686018427387904 :: int64) * 1000 < sint (1 :: int64))"
  by (simp add: checkRevoked_def getAccountByUID_def demo_backend_def alice_token_def
      word_sless_alt)

text \<open>
  C5, amended. \<open>checkRevoked\<close> makes no check of the user-id: for every token, also
  one whose user-id is empty, it fetches the account record for \<open>token.UID\<close> (one
  fetch, and nothing else), and it fails exactly when that fetch fails, with the error
  of the fetch. It has no \<open>MissingUID\<close> error of its own.
\<close>

theorem checkRevoked_fetches_always:
  "snd (checkRevoked h token s) = s @ [AccountFetched (UID token)]
   \<and> (\<forall>err. fst (checkRevoked h token s) = Inl err
              \<longleftrightarrow> accountByUID h s (UID token) = Inl err)"
  by (cases "accountByUID h s (UID token)") (simp_all add: checkRevoked_def getAccountByUID_def)

text \<open>
  C5 as stated fails: for a token with the empty user-id the account is fetched, and
  the failure is the one of the fetch (here: no such user), not \<open>MissingUID\<close>.
\<close>

theorem checkRevoked_MissingUID_counterexample:
  "checkRevoked (demo_backend 0) (alice_token\<lparr>UID := []\<rparr>) []
     = (Inl AuthErrUserNotFound, [AccountFetched []])
   \<and> AuthErrUserNotFound \<noteq> MissingUID"
  by (simp add: checkRevoked_def getAccountByUID_def demo_backend_def alice_token_def
      MissingUID_def)

subsection \<open>Verifying a cookie and checking its revocation\<close>

lemmas session_run_defs =
  verifySessionCookieAndCheckRevoked_def verifySessionCookie_def checkRevoked_def
  newIDTokenVerifier_def VerifyToken_def getAccountByUID_def

text \<open>
  C1. The result of \<open>checkRevoked\<close> (true: revoked) is bound to a variable named
  \<open>valid\<close> and the failure is reported when it is false. For the cookie of a token
  issued at second 2000000000: with an account whose threshold is 0 (nothing was ever
  revoked) the call fails with "Token has been revoked", and with a threshold one
  second after the issue (the token is revoked) the call returns the account record.
\<close>

theorem verifySessionCookieAndCheckRevoked_inverted:
  "fst (verifySessionCookieAndCheckRevoked (demo_backend 0) ''demo'' ''cookie'' [])
     = Inl (ErrorString ''Token has been revoked'')
   \<and> \<not> (sint (IssuedAt alice_token) * 1000 < sint (0 :: int64))
   \<and> fst (verifySessionCookieAndCheckRevoked (demo_backend 2000000001000) ''demo'' ''cookie'' [])
     = Inr \<lparr>UserRecord_UID = ''alice'', TokensValidAfterMillis = 2000000001000\<rparr>
   \<and> sint (IssuedAt alice_token) * 1000 < sint (2000000001000 :: int64)"
  by (simp add: session_run_defs demo_backend_def alice_token_def word_sless_alt Let_def)

text \<open>
  The same for every cookie that verifies and every account that is found: a token that
  is not revoked is reported as revoked, and for a revoked token the call goes on to
  the second account fetch and returns its result.
\<close>

lemma not_revoked_is_rejected:
  assumes "verifySessionCookie h projectID cookie s = (Inr token, s1)"
    and "accountByUID h s1 (UID token) = Inr user"
    and "\<not> (IssuedAt token * 1000 <s TokensValidAfterMillis user)"
  shows "fst (verifySessionCookieAndCheckRevoked h projectID cookie s)
           = Inl (ErrorString ''Token has been revoked'')"
  using assms
  by (simp add: verifySessionCookieAndCheckRevoked_def checkRevoked_def getAccountByUID_def)

lemma revoked_is_let_through:
  assumes "verifySessionCookie h projectID cookie s = (Inr token, s1)"
    and "accountByUID h s1 (UID token) = Inr user"
    and "IssuedAt token * 1000 <s TokensValidAfterMillis user"
  shows "verifySessionCookieAndCheckRevoked h projectID cookie s
           = getAccountByUID h (UID token) (s1 @ [AccountFetched (UID token)])"
  using assms
  by (simp add: verifySessionCookieAndCheckRevoked_def checkRevoked_def getAccountByUID_def
      Let_def)

subsection \<open>Creating a session cookie\<close>

text \<open>
  C3. The request validator of \<open>createSessionCookieAPI\<close> asserts the type of the
  account lookup request, so it reports \<open>errIllegalType\<close> on the request that
  \<open>createSessionCookie\<close> builds; the dispatcher then aborts before any round trip and
  the call returns that error instead of a cookie.
\<close>

theorem createSessionCookie_rejected:
  "reqFn createSessionCookieAPI
     (CreateSessionCookieRequest \<lparr>IDToken = ''idToken'', Duration = 432000\<rparr>)
     = Some errIllegalType
   \<and> createSessionCookie (demo_backend 0) ''idToken'' 432000 []
     = (Inl errIllegalType,
        [Called ''createSessionCookie''
           (CreateSessionCookieRequest \<lparr>IDToken = ''idToken'', Duration = 432000\<rparr>)])"
  by (simp add: createSessionCookie_def call_def createSessionCookieAPI_def)

text \<open>The same for every token string, duration and backend.\<close>

lemma reqFn_rejects_every_cookie_request:
  "reqFn createSessionCookieAPI (CreateSessionCookieRequest r) = Some errIllegalType"
  by (simp add: createSessionCookieAPI_def)

lemma respFn_rejects_every_cookie_response:
  "respFn createSessionCookieAPI (CreateSessionCookieResponse r) = Some errIllegalType"
  by (simp add: createSessionCookieAPI_def)

lemma createSessionCookie_always_fails:
  "createSessionCookie h idToken duration s
     = (Inl errIllegalType,
        s @ [Called ''createSessionCookie''
           (CreateSessionCookieRequest \<lparr>IDToken = idToken, Duration = duration\<rparr>)])"
  by (simp add: createSessionCookie_def call_def createSessionCookieAPI_def)

subsection \<open>The two verification paths\<close>

lemma same_verifier:
  "serviceAccount h s (options (app a)) = None \<Longrightarrow>
   VerifyIDTokenWithTransport h a tokenString s
     = verifySessionCookie h (projectOf a) tokenString (s @ [ServiceAccountEnsured])"
  by (simp add: VerifyIDTokenWithTransport_def verifySessionCookie_def ensureServiceAccount_def
      projectOf_def)

text \<open>
  C4, amended. \<open>verifySessionCookie\<close> builds its verifier with \<open>newIDTokenVerifier\<close>
  for the project, as \<open>VerifyIDTokenWithTransport\<close> does: once the service account of
  the application is in place, verifying a string as an ID token and verifying it as a
  session cookie of the application's project are the same computation, with the same
  result and the same calls.
\<close>

theorem verify_paths_agree:
  assumes "serviceAccount h s (options (app a)) = None"
  shows "VerifyIDTokenWithTransport h a tokenString s
           = verifySessionCookie h (projectOf a) tokenString (s @ [ServiceAccountEnsured])"
  using assms by (rule same_verifier)

text \<open>C4 at a concrete input: both paths accept the string \<open>cookie\<close> as the same token.\<close>

theorem verify_paths_agree_witness:
  "serviceAccount (demo_backend 0) [] (options (app demo_auth)) = None
   \<and> VerifyIDTokenWithTransport (demo_backend 0) demo_auth ''cookie'' []
       = (Inr alice_token, [ServiceAccountEnsured, VerifierBuilt ''demo'', TokenVerified ''cookie''])
   \<and> verifySessionCookie (demo_backend 0) ''demo'' ''cookie'' [ServiceAccountEnsured]
       = (Inr alice_token, [ServiceAccountEnsured, VerifierBuilt ''demo'', TokenVerified ''cookie''])"
proof -
  have h: "serviceAccount (demo_backend 0) [] (options (app demo_auth)) = None"
    by (simp add: demo_backend_def)
  have r: "verifySessionCookie (demo_backend 0) ''demo'' ''cookie'' [ServiceAccountEnsured]
       = (Inr alice_token, [ServiceAccountEnsured, VerifierBuilt ''demo'', TokenVerified ''cookie''])"
    by (simp add: verifySessionCookie_def newIDTokenVerifier_def VerifyToken_def demo_backend_def)
  have p: "projectOf demo_auth = ''demo''"
    by (simp add: projectOf_def demo_auth_def default_app_def)
  from verify_paths_agree [OF h, of "''cookie''"] h r p show ?thesis by simp
qed

text \<open>
  C4 as stated fails: there is no verifier, application, token string and state at which
  exactly one of the two paths accepts.
\<close>

theorem verify_paths_distinguishable_counterexample:
  "\<not> (\<exists>h a tokenString s.
        serviceAccount h s (options (app a)) = None
        \<and> accepts (VerifyIDTokenWithTransport h a tokenString s)
           \<noteq> accepts (verifySessionCookie h (projectOf a) tokenString
                        (s @ [ServiceAccountEnsured])))"
  by (auto simp: same_verifier)


section \<open>Properties of the seconds of a duration\<close>

subsection \<open>Powers of two and rounding to an integer\<close>

lemma pow2_powi: "pow2 e = 2 powi e"
  by (simp add: pow2_def power_int_def field_simps)

lemma pow2_pos: "0 < pow2 e"
  by (simp add: pow2_powi)

lemma pow2_add: "pow2 (a + b) = pow2 a * pow2 b"
  by (simp add: pow2_powi power_int_add)

lemma pow2_mono: "a \<le> b \<Longrightarrow> pow2 a \<le> pow2 b"
  by (simp add: pow2_powi power_int_increasing)

lemma pow2_neg_int: "e \<le> 0 \<Longrightarrow> 1 / pow2 e = of_int (2 ^ nat (- e))"
  by (simp add: pow2_def)

lemma round_even_error: "\<bar>of_int (round_even q) - q\<bar> \<le> 1 / 2"
  unfolding round_even_def Let_def by (auto simp: abs_if) linarith+

lemma round_even_ge_floor: "\<lfloor>q\<rfloor> \<le> round_even q"
  unfolding round_even_def Let_def by auto

lemma round_even_ge_int: "of_int n \<le> q \<Longrightarrow> n \<le> round_even q"
  using round_even_ge_floor [of q] le_floor_iff [of n q] by linarith

lemma round_even_of_int: "round_even (of_int n) = n"
  by (simp add: round_even_def)

text \<open>The exponent \<open>binade\<close> computes is the one of its description.\<close>

lemma binade_bounds:
  assumes "0 < x"
  shows "pow2 (binade x) \<le> x" and "x < pow2 (binade x + 1)"
proof -
  obtain p q where pq: "quotient_of x = (p, q)" by (cases "quotient_of x")
  then have q: "0 < q" and x: "x = of_int p / of_int q"
    using quotient_of_denom_pos [OF pq] quotient_of_div [OF pq] by simp_all
  with assms have p: "0 < p"
    by (simp add: zero_less_divide_iff)
  define k where "k = bitlen p - bitlen q"
  have bp: "2 ^ nat (bitlen p - 1) \<le> p" "p < 2 ^ nat (bitlen p)"
    using bitlen_bounds [OF p] by simp_all
  have bq: "2 ^ nat (bitlen q - 1) \<le> q" "q < 2 ^ nat (bitlen q)"
    using bitlen_bounds [OF q] by simp_all
  have lp: "1 \<le> bitlen p" and lq: "1 \<le> bitlen q"
    using p q bitlen_eq_zero_iff [of p] bitlen_eq_zero_iff [of q] bitlen_nonneg [of p] bitlen_nonneg [of q]
    by linarith+
  have P1: "pow2 (bitlen p - 1) \<le> of_int p"
  proof -
    have "pow2 (bitlen p - 1) = of_int (2 ^ nat (bitlen p - 1))"
      using lp by (simp add: pow2_def)
    also have "\<dots> \<le> of_int p" using bp(1) by (simp only: of_int_le_iff)
    finally show ?thesis .
  qed
  have P2: "of_int p < pow2 (bitlen p)"
  proof -
    have "of_int p < (of_int (2 ^ nat (bitlen p)) :: rat)" using bp(2) by (simp only: of_int_less_iff)
    also have "\<dots> = pow2 (bitlen p)" using lp by (simp add: pow2_def)
    finally show ?thesis .
  qed
  have Q1: "pow2 (bitlen q - 1) \<le> of_int q"
  proof -
    have "pow2 (bitlen q - 1) = of_int (2 ^ nat (bitlen q - 1))"
      using lq by (simp add: pow2_def)
    also have "\<dots> \<le> of_int q" using bq(1) by (simp only: of_int_le_iff)
    finally show ?thesis .
  qed
  have Q2: "of_int q < pow2 (bitlen q)"
  proof -
    have "of_int q < (of_int (2 ^ nat (bitlen q)) :: rat)" using bq(2) by (simp only: of_int_less_iff)
    also have "\<dots> = pow2 (bitlen q)" using lq by (simp add: pow2_def)
    finally show ?thesis .
  qed
  have qpos: "(0::rat) < of_int q" using q by simp
  have low: "pow2 (k - 1) \<le> x"
  proof -
    have "pow2 (k - 1) * pow2 (bitlen q) = pow2 (bitlen p - 1)"
      by (simp add: k_def pow2_add [symmetric])
    then have "pow2 (k - 1) * of_int q \<le> pow2 (bitlen p - 1)"
      using Q2 pow2_pos [of "k - 1"] by (metis less_imp_le mult_left_mono)
    then have "pow2 (k - 1) * of_int q \<le> of_int p" using P1 by linarith
    then show ?thesis using qpos by (simp add: x pos_le_divide_eq)
  qed
  have high: "x < pow2 (k + 1)"
  proof -
    have "pow2 (k + 1) * pow2 (bitlen q - 1) = pow2 (bitlen p)"
      by (simp add: k_def pow2_add [symmetric])
    then have "pow2 (bitlen p) \<le> pow2 (k + 1) * of_int q"
      using Q1 pow2_pos [of "k + 1"] by (metis less_imp_le mult_left_mono)
    then have "of_int p < pow2 (k + 1) * of_int q" using P2 by linarith
    then show ?thesis using qpos by (simp add: x pos_divide_less_eq)
  qed
  have b: "binade x = (if pow2 k \<le> x then k else k - 1)"
    by (simp add: binade_def pq k_def)
  show "pow2 (binade x) \<le> x" using low by (simp add: b)
  show "x < pow2 (binade x + 1)" using high by (auto simp: b)
qed


lemma binade_less: "0 < x \<Longrightarrow> x < pow2 e \<Longrightarrow> binade x < e"
proof (rule ccontr)
  assume x: "0 < x" "x < pow2 e" and "\<not> binade x < e"
  then have "pow2 e \<le> pow2 (binade x)" by (intro pow2_mono) simp
  with binade_bounds(1) [OF x(1)] x(2) show False by linarith
qed

lemma float64_round_minus: "float64_round (- x) = - float64_round x"
  by (simp add: float64_round_def Let_def)

lemma float64_round_pos_eq:
  "0 < x \<Longrightarrow> float64_round x = of_int (round_even (x / pow2 (binade x - 52))) * pow2 (binade x - 52)"
  by (simp add: float64_round_def Let_def)

lemma float64_round_nonneg:
  assumes "0 \<le> x"
  shows "0 \<le> float64_round x"
proof (cases "x = 0")
  case True
  then show ?thesis by (simp add: float64_round_def)
next
  case False
  with assms have pos: "0 < x" by simp
  define u where "u = pow2 (binade x - 52)"
  have u: "0 < u" by (simp add: u_def pow2_pos)
  have "0 \<le> x / u" using u pos by simp
  then have "0 \<le> round_even (x / u)"
    using round_even_ge_int [of 0 "x / u"] by simp
  then have "(0::rat) \<le> of_int (round_even (x / u)) * u"
    using u by simp
  then show ?thesis by (simp add: float64_round_pos_eq [OF pos] u_def)
qed

text \<open>The rounding error is at most half a unit in the last place.\<close>

lemma float64_round_error:
  assumes "0 < x"
  shows "\<bar>float64_round x - x\<bar> \<le> pow2 (binade x - 53)"
proof -
  define u where "u = pow2 (binade x - 52)"
  have u: "0 < u" by (simp add: u_def pow2_pos)
  have half: "pow2 (binade x - 53) = u / 2"
  proof -
    have "pow2 (binade x - 52) = pow2 (binade x - 53) * pow2 1"
      using pow2_add [of "binade x - 53" 1] by simp
    then show ?thesis by (simp add: u_def pow2_def)
  qed
  have r: "float64_round x = of_int (round_even (x / u)) * u"
    using assms by (simp add: float64_round_def Let_def u_def)
  have "float64_round x - x = (of_int (round_even (x / u)) - x / u) * u"
    using u by (simp add: r field_simps)
  then have "\<bar>float64_round x - x\<bar> = \<bar>of_int (round_even (x / u)) - x / u\<bar> * u"
    using u by (simp add: abs_mult)
  also have "\<dots> \<le> (1 / 2) * u"
    using round_even_error [of "x / u"] u by (intro mult_right_mono) simp_all
  finally show ?thesis by (simp add: half)
qed

text \<open>A multiple of the unit in the last place below the argument stays below the result.\<close>

lemma float64_round_ge_int:
  assumes "0 < x" and "x < pow2 53" and "of_int n \<le> x"
  shows "of_int n \<le> float64_round x"
proof -
  define e where "e = binade x"
  define u where "u = pow2 (e - 52)"
  have u: "0 < u" by (simp add: u_def pow2_pos)
  have e: "e - 52 \<le> 0"
    using binade_less [OF assms(1,2)] by (simp add: e_def)
  obtain w :: int where w: "1 / u = of_int w"
    using pow2_neg_int [OF e] by (auto simp: u_def)
  have "of_int n / u = of_int n * (1 / u)" by simp
  then have "of_int (n * w) = of_int n / u"
    by (simp only: w of_int_mult)
  also have "\<dots> \<le> x / u" using assms(3) u by (simp add: divide_right_mono)
  finally have "n * w \<le> round_even (x / u)" by (rule round_even_ge_int)
  then have "(of_int (n * w) :: rat) \<le> of_int (round_even (x / u))" by (simp only: of_int_le_iff)
  then have le: "of_int (n * w) * u \<le> of_int (round_even (x / u)) * u"
    using u by (intro mult_right_mono) simp_all
  have one: "of_int w * u = 1" using w u by (simp add: field_simps)
  have "of_int (n * w) * u = of_int n * (of_int w * u)" by simp
  then have n: "of_int (n * w) * u = (of_int n :: rat)" by (simp only: one mult_1_right)
  have "float64_round x = of_int (round_even (x / u)) * u"
    using assms(1) by (simp add: float64_round_def Let_def u_def e_def)
  with le n show ?thesis by linarith
qed

lemma float64_of_int_exact:
  assumes "\<bar>n\<bar> < 2 ^ 53"
  shows "float64_of_int n = of_int n"
proof -
  have pos: "float64_round (of_int k) = of_int k" if k: "0 < k" "k < 2 ^ 53" for k :: int
  proof -
    define x :: rat where "x = of_int k"
    have x: "0 < x" "x < pow2 53"
      using k by (simp_all add: x_def pow2_def) 
    define u where "u = pow2 (binade x - 52)"
    have u: "0 < u" by (simp add: u_def pow2_pos)
    have e: "binade x - 52 \<le> 0" using binade_less [OF x] by simp
    obtain w :: int where w: "1 / u = of_int w"
      using pow2_neg_int [OF e] by (auto simp: u_def)
    have "x / u = x * (1 / u)" by simp
    then have "x / u = of_int (k * w)" by (simp only: w x_def of_int_mult)
    then have "round_even (x / u) = k * w" by (simp only: round_even_of_int)
    then have "float64_round x = of_int (k * w) * u"
      using x(1) by (simp add: float64_round_def Let_def u_def)
    also have "\<dots> = of_int k * (of_int w * u)" by simp
    also have "of_int w * u = 1" using w u by (simp add: field_simps)
    finally show ?thesis by (simp add: x_def)
  qed
  consider "n = 0" | "0 < n" | "n < 0" by linarith
  then show ?thesis
  proof cases
    case 1 then show ?thesis by (simp add: float64_of_int_def float64_round_def)
  next
    case 2 with assms show ?thesis by (simp add: float64_of_int_def pos)
  next
    case 3
    with assms have "float64_round (of_int (- n)) = of_int (- n)" by (intro pos) simp_all
    then show ?thesis using float64_round_minus [of "of_int n"] by (simp add: float64_of_int_def)
  qed
qed

subsection \<open>The whole seconds of a duration\<close>

lemma float64_div_nanos:
  assumes "0 \<le> nsec" and "nsec < 1000000000"
  shows "0 \<le> float64_div (float64_of_int nsec) 1000000000"
    and "float64_div (float64_of_int nsec) 1000000000 \<le> 999999999 / 1000000000 + pow2 (- 54)"
proof -
  define x :: rat where "x = of_int nsec / 1000000000"
  have exact: "float64_of_int nsec = of_int nsec"
    using assms by (intro float64_of_int_exact) simp
  have d: "float64_div (float64_of_int nsec) 1000000000 = float64_round x"
    by (simp add: float64_div_def exact x_def)
  have x0: "0 \<le> x" using assms by (simp add: x_def)
  have x1: "x \<le> 999999999 / 1000000000"
  proof -
    have "nsec \<le> 999999999" using assms by simp
    then have "(of_int nsec :: rat) \<le> 999999999" by (simp only: of_int_le_iff of_int_numeral)
    then show ?thesis by (simp add: x_def)
  qed
  show "0 \<le> float64_div (float64_of_int nsec) 1000000000"
    using float64_round_nonneg [OF x0] by (simp add: d)
  show "float64_div (float64_of_int nsec) 1000000000 \<le> 999999999 / 1000000000 + pow2 (- 54)"
  proof (cases "x = 0")
    case True
    then show ?thesis using pow2_pos [of "- 54"] by (simp add: d float64_round_def)
  next
    case False
    with x0 have pos: "0 < x" by simp
    have "x < pow2 0" using x1 by (simp add: pow2_def)
    then have "binade x - 53 \<le> - 54" using binade_less [OF pos] by fastforce
    then have "pow2 (binade x - 53) \<le> pow2 (- 54)" by (rule pow2_mono)
    with float64_round_error [OF pos] have "float64_round x \<le> x + pow2 (- 54)" by linarith
    with x1 show ?thesis by (simp add: d)
  qed
qed

lemma seconds_sum_bounds:
  assumes "0 \<le> sec" and "sec < 16777216" and "0 \<le> nsec" and "nsec < 1000000000"
  shows "of_int sec \<le> float64_add (float64_of_int sec) (float64_div (float64_of_int nsec) 1000000000)"
    and "float64_add (float64_of_int sec) (float64_div (float64_of_int nsec) 1000000000) < of_int sec + 1"
proof -
  define b where "b = float64_div (float64_of_int nsec) 1000000000"
  define y where "y = of_int sec + b"
  have exact: "float64_of_int sec = of_int sec"
    using assms by (intro float64_of_int_exact) simp
  have s: "float64_add (float64_of_int sec) (float64_div (float64_of_int nsec) 1000000000) = float64_round y"
    by (simp add: float64_add_def exact y_def b_def)
  have b0: "0 \<le> b" and b1: "b \<le> 999999999 / 1000000000 + pow2 (- 54)"
    using float64_div_nanos [OF assms(3,4)] by (simp_all add: b_def)
  have sec0: "(0::rat) \<le> of_int sec" using assms(1) by simp
  have sec1: "(of_int sec :: rat) \<le> 16777215"
  proof -
    have "sec \<le> 16777215" using assms(2) by simp
    then show ?thesis by (simp only: of_int_le_iff of_int_numeral)
  qed
  have y0: "0 \<le> y" using sec0 b0 by (simp add: y_def)
  have ylow: "of_int sec \<le> y" using b0 by (simp add: y_def)
  have small: "999999999 / 1000000000 + pow2 (- 54) + pow2 (- 30) < (1::rat)"
    by (simp add: pow2_def)
  have yhigh: "y < pow2 24"
  proof -
    have "y < of_int sec + 1" using b1 small pow2_pos [of "- 30"] by (simp add: y_def)
    also have "\<dots> \<le> 16777216" using sec1 by simp
    finally show ?thesis by (simp add: pow2_def)
  qed
  show "of_int sec \<le> float64_add (float64_of_int sec) (float64_div (float64_of_int nsec) 1000000000)"
    unfolding s
  proof (cases "y = 0")
    case True
    then have "float64_round y = 0" by (simp add: float64_round_def)
    with ylow True show "of_int sec \<le> float64_round y" by linarith
  next
    case False
    with y0 have pos: "0 < y" by simp
    have "y < pow2 53" using yhigh pow2_mono [of 24 53] by simp
    from float64_round_ge_int [OF pos this ylow] show "of_int sec \<le> float64_round y" .
  qed
  show "float64_add (float64_of_int sec) (float64_div (float64_of_int nsec) 1000000000) < of_int sec + 1"
    unfolding s
  proof (cases "y = 0")
    case True
    then have "float64_round y = 0" by (simp add: float64_round_def)
    with sec0 show "float64_round y < of_int sec + 1" by linarith
  next
    case False
    with y0 have pos: "0 < y" by simp
    have "binade y - 53 \<le> - 30" using binade_less [OF pos yhigh] by simp
    then have "pow2 (binade y - 53) \<le> pow2 (- 30)" by (rule pow2_mono)
    with float64_round_error [OF pos] have "float64_round y \<le> y + pow2 (- 30)" by linarith
    also have "\<dots> < of_int sec + 1" using b1 small by (simp add: y_def)
    finally show "float64_round y < of_int sec + 1" .
  qed
qed

lemma seconds_sum_minus:
  "float64_add (float64_of_int (- sec)) (float64_div (float64_of_int (- nsec)) 1000000000)
     = - float64_add (float64_of_int sec) (float64_div (float64_of_int nsec) 1000000000)"
proof -
  have a: "float64_of_int (- k) = - float64_of_int k" for k
    using float64_round_minus [of "of_int k"] by (simp add: float64_of_int_def)
  have d: "float64_div (- p) q = - float64_div p q" for p q
    using float64_round_minus [of "p / q"] by (simp add: float64_div_def)
  have s: "float64_add (- p) (- q) = - float64_add p q" for p q
    using float64_round_minus [of "p + q"] by (simp add: float64_add_def)
  show ?thesis by (simp only: a d s)
qed

text \<open>
  For a duration of less than \<open>2^24\<close> seconds in magnitude, the seconds as a
  \<open>float64\<close>, truncated, are the whole seconds of the duration (Go's truncating
  division by \<open>Second\<close>).
\<close>

lemma Seconds_whole:
  assumes "\<bar>sint d\<bar> < 16777216000000000"
  shows "int64_of_float64 (Seconds d) = word_of_int (sint d sdiv Second)"
proof -
  define D where "D = \<bar>sint d\<bar>"
  define sec where "sec = D div 1000000000"
  define nsec where "nsec = D mod 1000000000"
  define f where "f = float64_add (float64_of_int sec) (float64_div (float64_of_int nsec) 1000000000)"
  have D: "0 \<le> D" "D < 16777216000000000" using assms by (simp_all add: D_def)
  have sec: "0 \<le> sec" "sec < 16777216" using D by (simp_all add: sec_def div_less_iff_less_mult pos_imp_zdiv_nonneg_iff)
  have nsec: "0 \<le> nsec" "nsec < 1000000000" by (simp_all add: nsec_def)
  have f: "of_int sec \<le> f" "f < of_int sec + 1"
    using seconds_sum_bounds [OF sec nsec] by (simp_all add: f_def)
  have fl: "\<lfloor>f\<rfloor> = sec" using f by (simp add: floor_unique)
  have "(0::rat) \<le> of_int sec" using sec(1) by simp
  with f(1) have f0: "0 \<le> f" by linarith
  show ?thesis
  proof (cases "0 \<le> sint d")
    case True
    then have "sint d sdiv Second = sec" "sint d smod Second = nsec"
      by (simp_all add: signed_divide_int_def signed_modulo_int_def Second_def sec_def nsec_def D_def sgn_if)
    then have "Seconds d = f" by (simp add: Seconds_def f_def)
    then show ?thesis using fl f0 \<open>sint d sdiv Second = sec\<close> by (simp add: int64_of_float64_def)
  next
    case False
    then have neg: "sint d sdiv Second = - sec" "sint d smod Second = - nsec"
      by (simp_all add: signed_divide_int_def signed_modulo_int_def Second_def sec_def nsec_def D_def sgn_if)
    then have S: "Seconds d = - f" by (simp add: Seconds_def f_def seconds_sum_minus)
    have "(if 0 \<le> - f then \<lfloor>- f\<rfloor> else \<lceil>- f\<rceil>) = - sec"
    proof (cases "f = 0")
      case True
      with fl show ?thesis by simp
    next
      case False
      with f0 have "\<not> 0 \<le> - f" by simp
      moreover have "\<lceil>- f\<rceil> = - \<lfloor>f\<rfloor>" by (simp add: ceiling_def)
      ultimately show ?thesis using fl by simp
    qed
    then show ?thesis using neg by (simp add: int64_of_float64_def S)
  qed
qed


section \<open>Properties of the Auth facade\<close>

subsection \<open>The registry\<close>

lemma GetAuthWithApp_hit:
  "instances_m r (name a) = Some p \<Longrightarrow> GetAuthWithApp (Some a) r = (Inr (Some p, None), r)"
  by (simp add: GetAuthWithApp_def)

lemma GetAuthWithApp_registers:
  "\<exists>p. fst (GetAuthWithApp (Some a) r) = Inr (Some p, None)
       \<and> instances_m (snd (GetAuthWithApp (Some a) r)) (name a) = Some p"
  by (cases "instances_m r (name a)") (simp_all add: GetAuthWithApp_def)

lemma GetAuthWithApp_keeps:
  "instances_m r n = Some p \<Longrightarrow> instances_m (snd (GetAuthWithApp x r)) n = Some p"
  by (cases x) (auto simp: GetAuthWithApp_def Let_def)

lemma GetAuthWithApp_calls_keep:
  "instances_m r n = Some p \<Longrightarrow> instances_m (GetAuthWithApp_calls xs r) n = Some p"
  by (induction xs arbitrary: r) (simp_all add: GetAuthWithApp_keeps)

lemma registry_ok_empty: "registry_ok no_instances"
  by (simp add: registry_ok_def no_instances_def)

lemma registry_ok_GetAuthWithApp:
  assumes "registry_ok r"
  shows "registry_ok (snd (GetAuthWithApp x r))"
proof (cases x)
  case None
  with assms show ?thesis by (simp add: GetAuthWithApp_def)
next
  case (Some a)
  show ?thesis
  proof (cases "instances_m r (name a)")
    case (Some p)
    with \<open>x = Some a\<close> assms show ?thesis by (simp add: GetAuthWithApp_def)
  next
    case None
    have "snd (GetAuthWithApp x r)
            = r\<lparr>instances_m := (instances_m r)(name a \<mapsto> length (allocated r)),
                 allocated := allocated r @ [\<lparr>app = a\<rparr>]\<rparr>"
      using None \<open>x = Some a\<close> by (simp add: GetAuthWithApp_def)
    then show ?thesis
      using assms by (auto simp: registry_ok_def nth_append less_Suc_eq)
  qed
qed

lemma registry_ok_calls:
  "registry_ok r \<Longrightarrow> registry_ok (GetAuthWithApp_calls xs r)"
  by (induction xs arbitrary: r) (simp_all add: registry_ok_GetAuthWithApp)

lemma GetAuthWithApp_create:
  assumes "instances_m r (name a) = None"
  shows "GetAuthWithApp (Some a) r
           = (Inr (Some (length (allocated r)), None),
              r\<lparr>instances_m := (instances_m r)(name a \<mapsto> length (allocated r)),
                allocated := allocated r @ [\<lparr>app = a\<rparr>]\<rparr>)"
  using assms by (simp add: GetAuthWithApp_def)

lemma GetAuthWithApp_other_name:
  assumes ok: "registry_ok r" and p: "instances_m r n = Some p" and c: "name c \<noteq> n"
    and q: "fst (GetAuthWithApp (Some c) r) = Inr (Some q, None)"
  shows "q \<noteq> p"
proof (cases "instances_m r (name c)")
  case None
  from GetAuthWithApp_create [OF None] q have "q = length (allocated r)" by simp
  moreover from ok p have "p < length (allocated r)" by (simp add: registry_ok_def)
  ultimately show ?thesis by simp
next
  case (Some q')
  from GetAuthWithApp_hit [OF Some] q have "q = q'" by simp
  with ok Some have "name (app (allocated r ! q)) = name c" by (simp add: registry_ok_def)
  moreover from ok p have "name (app (allocated r ! p)) = n" by (simp add: registry_ok_def)
  ultimately show ?thesis using c by auto
qed

text \<open>
  C7. \<open>GetAuthWithApp\<close> is a get-or-create keyed by the application's name. A request
  for an application returns a non-nil \<open>*Auth\<close> and a nil error, and the pointer is
  the one registered under the name afterwards. If the name was not registered, the
  pointer is a fresh one, the new object is \<open>Auth{app: app}\<close> and the registry changes
  in this entry only; if it was registered, the registered pointer is returned and
  nothing changes. After any further requests, a request for an application of the
  same name returns the same pointer, again with a nil error, and leaves the registry
  as it was. In a registry that is in order the pointer denotes an allocated \<open>Auth\<close>
  of an application of that name, and a request under any other name returns another
  pointer.
\<close>

theorem GetAuthWithApp_idempotent:
  assumes "name b = name a"
  shows "(\<exists>p. fst (GetAuthWithApp (Some a) r) = Inr (Some p, None))
     \<and> (\<forall>p. fst (GetAuthWithApp (Some a) r) = Inr (Some p, None) \<longrightarrow>
          instances_m (snd (GetAuthWithApp (Some a) r)) (name a) = Some p
        \<and> (instances_m r (name a) = None \<longrightarrow>
             p = length (allocated r)
             \<and> allocated (snd (GetAuthWithApp (Some a) r)) = allocated r @ [\<lparr>app = a\<rparr>]
             \<and> instances_m (snd (GetAuthWithApp (Some a) r)) = (instances_m r)(name a \<mapsto> p))
        \<and> (instances_m r (name a) \<noteq> None \<longrightarrow>
             instances_m r (name a) = Some p \<and> snd (GetAuthWithApp (Some a) r) = r)
        \<and> GetAuthWithApp (Some b)
             (GetAuthWithApp_calls others (snd (GetAuthWithApp (Some a) r)))
            = (Inr (Some p, None),
               GetAuthWithApp_calls others (snd (GetAuthWithApp (Some a) r)))
        \<and> (registry_ok r \<longrightarrow>
             registry_ok (snd (GetAuthWithApp (Some a) r))
             \<and> p < length (allocated (snd (GetAuthWithApp (Some a) r)))
             \<and> name (app (allocated (snd (GetAuthWithApp (Some a) r)) ! p)) = name a
             \<and> (\<forall>c q. name c \<noteq> name a \<longrightarrow>
                   fst (GetAuthWithApp (Some c)
                          (GetAuthWithApp_calls others (snd (GetAuthWithApp (Some a) r))))
                     = Inr (Some q, None) \<longrightarrow> q \<noteq> p)))"
proof -
  define r1 where "r1 = snd (GetAuthWithApp (Some a) r)"
  define r2 where "r2 = GetAuthWithApp_calls others r1"
  have ex: "\<exists>p. fst (GetAuthWithApp (Some a) r) = Inr (Some p, None)"
    using GetAuthWithApp_registers [of a r] by blast
  have rest: "instances_m r1 (name a) = Some p
        \<and> (instances_m r (name a) = None \<longrightarrow>
             p = length (allocated r)
             \<and> allocated r1 = allocated r @ [\<lparr>app = a\<rparr>]
             \<and> instances_m r1 = (instances_m r)(name a \<mapsto> p))
        \<and> (instances_m r (name a) \<noteq> None \<longrightarrow> instances_m r (name a) = Some p \<and> r1 = r)
        \<and> GetAuthWithApp (Some b) r2 = (Inr (Some p, None), r2)
        \<and> (registry_ok r \<longrightarrow>
             registry_ok r1 \<and> p < length (allocated r1)
             \<and> name (app (allocated r1 ! p)) = name a
             \<and> (\<forall>c q. name c \<noteq> name a \<longrightarrow>
                   fst (GetAuthWithApp (Some c) r2) = Inr (Some q, None) \<longrightarrow> q \<noteq> p))"
    if first: "fst (GetAuthWithApp (Some a) r) = Inr (Some p, None)" for p
  proof -
    have reg: "instances_m r1 (name a) = Some p"
      using GetAuthWithApp_registers [of a r] first by (auto simp: r1_def)
    have create: "instances_m r (name a) = None \<longrightarrow>
          p = length (allocated r)
          \<and> allocated r1 = allocated r @ [\<lparr>app = a\<rparr>]
          \<and> instances_m r1 = (instances_m r)(name a \<mapsto> p)"
    proof
      assume none: "instances_m r (name a) = None"
      from GetAuthWithApp_create [OF none] first have p: "p = length (allocated r)" by simp
      from GetAuthWithApp_create [OF none] show "p = length (allocated r)
          \<and> allocated r1 = allocated r @ [\<lparr>app = a\<rparr>]
          \<and> instances_m r1 = (instances_m r)(name a \<mapsto> p)"
        by (simp add: r1_def p)
    qed
    have get: "instances_m r (name a) \<noteq> None \<longrightarrow> instances_m r (name a) = Some p \<and> r1 = r"
    proof
      assume "instances_m r (name a) \<noteq> None"
      then obtain q where q: "instances_m r (name a) = Some q" by blast
      from GetAuthWithApp_hit [OF q] first have "q = p" by simp
      with GetAuthWithApp_hit [OF q] q show "instances_m r (name a) = Some p \<and> r1 = r"
        by (simp add: r1_def)
    qed
    have kept: "instances_m r2 (name a) = Some p"
      using reg by (simp add: r2_def GetAuthWithApp_calls_keep)
    then have "instances_m r2 (name b) = Some p" using assms by simp
    then have again: "GetAuthWithApp (Some b) r2 = (Inr (Some p, None), r2)"
      by (rule GetAuthWithApp_hit)
    have inv: "registry_ok r \<longrightarrow>
          registry_ok r1 \<and> p < length (allocated r1) \<and> name (app (allocated r1 ! p)) = name a
          \<and> (\<forall>c q. name c \<noteq> name a \<longrightarrow>
                fst (GetAuthWithApp (Some c) r2) = Inr (Some q, None) \<longrightarrow> q \<noteq> p)"
    proof
      assume ok: "registry_ok r"
      then have ok1: "registry_ok r1" unfolding r1_def by (rule registry_ok_GetAuthWithApp)
      then have ok2: "registry_ok r2" unfolding r2_def by (rule registry_ok_calls)
      from ok1 reg have "p < length (allocated r1)" "name (app (allocated r1 ! p)) = name a"
        by (simp_all add: registry_ok_def)
      moreover have "\<forall>c q. name c \<noteq> name a \<longrightarrow>
                fst (GetAuthWithApp (Some c) r2) = Inr (Some q, None) \<longrightarrow> q \<noteq> p"
        using GetAuthWithApp_other_name [OF ok2 kept] by blast
      ultimately show "registry_ok r1 \<and> p < length (allocated r1)
          \<and> name (app (allocated r1 ! p)) = name a
          \<and> (\<forall>c q. name c \<noteq> name a \<longrightarrow>
                fst (GetAuthWithApp (Some c) r2) = Inr (Some q, None) \<longrightarrow> q \<noteq> p)"
        using ok1 by blast
    qed
    from reg create get again inv show ?thesis by blast
  qed
  from ex rest show ?thesis unfolding r1_def r2_def by blast
qed

text \<open>
  C7 at a concrete input: in the empty registry the default application gets the first
  \<open>Auth\<close>, which is allocated and registered under its name; a second application
  gets the next one; and another \<open>App\<close> value with the default name gets the first
  \<open>Auth\<close> again.
\<close>

theorem GetAuthWithApp_idempotent_witness:
  "name default_app_again = name default_app
   \<and> registry_ok no_instances
   \<and> fst (GetAuthWithApp (Some default_app) no_instances) = Inr (Some 0, None)
   \<and> allocated (snd (GetAuthWithApp (Some default_app) no_instances)) = [\<lparr>app = default_app\<rparr>]
   \<and> instances_m (snd (GetAuthWithApp (Some default_app) no_instances)) ''[DEFAULT]'' = Some 0
   \<and> fst (GetAuthWithApp (Some second_app)
        (GetAuthWithApp_calls [] (snd (GetAuthWithApp (Some default_app) no_instances))))
       = Inr (Some 1, None)
   \<and> GetAuthWithApp (Some default_app_again)
        (GetAuthWithApp_calls [Some second_app]
           (snd (GetAuthWithApp (Some default_app) no_instances)))
       = (Inr (Some 0, None),
          GetAuthWithApp_calls [Some second_app]
            (snd (GetAuthWithApp (Some default_app) no_instances)))"
proof -
  have n: "name default_app_again = name default_app"
    by (simp add: default_app_again_def default_app_def)
  have fresh: "instances_m no_instances (name default_app) = None"
    by (simp add: no_instances_def)
  have dn: "name default_app = ''[DEFAULT]''" by (simp add: default_app_def)
  have first: "fst (GetAuthWithApp (Some default_app) no_instances) = Inr (Some 0, None)"
    by (simp add: GetAuthWithApp_def no_instances_def default_app_def)
  have two: "fst (GetAuthWithApp (Some second_app)
        (GetAuthWithApp_calls [] (snd (GetAuthWithApp (Some default_app) no_instances))))
       = Inr (Some 1, None)"
    by (simp add: GetAuthWithApp_def no_instances_def default_app_def second_app_def Let_def)
  note t = GetAuthWithApp_idempotent [OF n, of no_instances "[Some second_app]",
      THEN conjunct2, THEN spec, of 0, THEN mp, OF first]
  from t fresh have al: "allocated (snd (GetAuthWithApp (Some default_app) no_instances))
              = [\<lparr>app = default_app\<rparr>]"
    by (simp add: no_instances_def)
  from t have im: "instances_m (snd (GetAuthWithApp (Some default_app) no_instances)) ''[DEFAULT]''
              = Some 0"
    by (simp add: dn)
  from t have again: "GetAuthWithApp (Some default_app_again)
        (GetAuthWithApp_calls [Some second_app]
           (snd (GetAuthWithApp (Some default_app) no_instances)))
       = (Inr (Some 0, None),
          GetAuthWithApp_calls [Some second_app]
            (snd (GetAuthWithApp (Some default_app) no_instances)))"
    by blast
  from n registry_ok_empty first al im two again show ?thesis by blast
qed

text \<open>The object behind the pointer is the \<open>Auth\<close> of the application that came first.\<close>

lemma GetAuthWithApp_allocates:
  "instances_m r (name a) = None \<Longrightarrow>
   fst (GetAuthWithApp (Some a) r) = Inr (Some (length (allocated r)), None)
   \<and> allocated (snd (GetAuthWithApp (Some a) r)) ! length (allocated r) = \<lparr>app = a\<rparr>"
  by (simp add: GetAuthWithApp_def)

lemma GetAuthWithApp_nil: "GetAuthWithApp None r = (Inl NilPointerDereference, r)"
  by (simp add: GetAuthWithApp_def)

subsection \<open>CreateSessionCookie: verification comes first\<close>

lemma VerifyIDToken_no_dispatch:
  "filter is_dispatch (snd (VerifyIDToken h a tokenString s)) = filter is_dispatch s"
  by (simp add: VerifyIDToken_def VerifyIDTokenWithTransport_def ensureServiceAccount_def
      newIDTokenVerifier_def VerifyToken_def Let_def split: option.splits sum.splits)

text \<open>
  C9, amended. \<open>Auth.CreateSessionCookie\<close> ensures the bearer-token source, then
  verifies the idToken, then dispatches. For every idToken on which \<open>VerifyIDToken\<close>
  fails, nothing is handed to the dispatcher or sent to the backend; the call returns
  that verification error when the token source was ensured, and the wrapped error of
  the token source ("Error ensuring token source") when it was not.
\<close>

theorem CreateSessionCookie_verifies_first:
  assumes "VerifyIDToken h auth idToken (s @ [TokenSourceEnsured]) = (Inl err, s2)"
  shows "filter is_dispatch (snd (CreateSessionCookie h auth idToken duration s))
           = filter is_dispatch s
       \<and> (tokenSource h s auth = None \<longrightarrow>
            CreateSessionCookie h auth idToken duration s = (Inl err, s2))
       \<and> (\<forall>e. tokenSource h s auth = Some e \<longrightarrow>
            CreateSessionCookie h auth idToken duration s
              = (Inl (Wrap e ''Error ensuring token source''), s @ [TokenSourceEnsured]))"
proof -
  have "filter is_dispatch s2 = filter is_dispatch (s @ [TokenSourceEnsured])"
    using VerifyIDToken_no_dispatch [of h auth idToken "s @ [TokenSourceEnsured]"] assms by simp
  then have quiet: "filter is_dispatch s2 = filter is_dispatch s" by simp
  show ?thesis
    using assms quiet
    by (cases "tokenSource h s auth") (simp_all add: CreateSessionCookie_def ensureTokenSource_def)
qed

lemmas verify_run_defs =
  VerifyIDToken_def VerifyIDTokenWithTransport_def ensureServiceAccount_def
  newIDTokenVerifier_def VerifyToken_def demo_backend_def demo_auth_def default_app_def

text \<open>
  C9 at a concrete input: with the token source in place, the verification error of a
  forged token is what the call returns, and the trace ends with the verification.
\<close>

theorem CreateSessionCookie_verifies_first_witness:
  "VerifyIDToken (demo_backend 0) demo_auth ''forged'' ([] @ [TokenSourceEnsured])
     = (Inl (ErrorString ''invalid token''),
        [TokenSourceEnsured, ServiceAccountEnsured, VerifierBuilt ''demo'', TokenVerified ''forged''])
   \<and> CreateSessionCookie (demo_backend 0) demo_auth ''forged'' None []
     = (Inl (ErrorString ''invalid token''),
        [TokenSourceEnsured, ServiceAccountEnsured, VerifierBuilt ''demo'', TokenVerified ''forged''])"
proof -
  have v: "VerifyIDToken (demo_backend 0) demo_auth ''forged'' ([] @ [TokenSourceEnsured])
     = (Inl (ErrorString ''invalid token''),
        [TokenSourceEnsured, ServiceAccountEnsured, VerifierBuilt ''demo'', TokenVerified ''forged''])"
    by (simp add: verify_run_defs)
  have ts: "tokenSource (demo_backend 0) [] demo_auth = None"
    by (simp add: demo_backend_def)
  from CreateSessionCookie_verifies_first [OF v, of None] ts v show ?thesis by simp
qed

text \<open>
  C9 as stated fails when the token source cannot be ensured: \<open>VerifyIDToken\<close> fails on
  the forged token, but the call returns the wrapped error of the token source.
\<close>

theorem CreateSessionCookie_token_source_counterexample:
  "fst (VerifyIDToken offline_backend demo_auth ''forged'' [TokenSourceEnsured])
     = Inl (ErrorString ''invalid token'')
   \<and> fst (CreateSessionCookie offline_backend demo_auth ''forged'' None [])
     = Inl (Wrap (ErrorString ''no credentials'') ''Error ensuring token source'')
   \<and> Wrap (ErrorString ''no credentials'') ''Error ensuring token source''
     \<noteq> ErrorString ''invalid token''"
  by (simp add: CreateSessionCookie_def ensureTokenSource_def verify_run_defs offline_backend_def)

subsection \<open>CreateSessionCookie: the duration handed to the dispatcher\<close>

lemma five_days: "int64_of_float64 (Seconds 432000000000000) = 432000"
  by code_simp

lemma long_duration: "int64_of_float64 (Seconds 16777216999999999) = 16777217"
  by code_simp

lemma one_and_a_half_seconds: "int64_of_float64 (Seconds 1500000000) = 1"
  by code_simp

lemma CreateSessionCookie_hands_over:
  assumes "tokenSource h s auth = None"
    and "VerifyIDToken h auth idToken (s @ [TokenSourceEnsured]) = (Inr token, s2)"
  shows "snd (CreateSessionCookie h auth idToken duration s)
     = s2 @ [Called ''createSessionCookie'' (CreateSessionCookieRequest
         \<lparr>IDToken = idToken,
          Duration = (case duration of
                        None \<Rightarrow> 432000
                      | Some d \<Rightarrow> int64_of_float64 (Seconds d))\<rparr>)]"
  using assms
  by (cases duration)
    (simp_all add: CreateSessionCookie_def ensureTokenSource_def five_days Hour_def
      createSessionCookie_always_fails)

text \<open>
  C10, amended. When the token source is ensured and the idToken verifies, the request
  handed to the dispatcher carries a \<open>validDuration\<close> of 432000 for a nil duration
  pointer and of \<open>int64(duration.Seconds())\<close> for a non-nil one; for every duration of
  less than 16777216 seconds (\<open>2^24\<close> seconds, about 194 days) in magnitude this is the
  number of whole seconds of the duration, the fraction dropped.
\<close>

theorem CreateSessionCookie_validDuration:
  assumes "tokenSource h s auth = None"
    and "VerifyIDToken h auth idToken (s @ [TokenSourceEnsured]) = (Inr token, s2)"
  shows "snd (CreateSessionCookie h auth idToken None s)
           = s2 @ [Called ''createSessionCookie''
                (CreateSessionCookieRequest \<lparr>IDToken = idToken, Duration = 432000\<rparr>)]
       \<and> snd (CreateSessionCookie h auth idToken (Some d) s)
           = s2 @ [Called ''createSessionCookie''
                (CreateSessionCookieRequest
                   \<lparr>IDToken = idToken, Duration = int64_of_float64 (Seconds d)\<rparr>)]
       \<and> (\<bar>sint d\<bar> < 16777216000000000 \<longrightarrow>
            int64_of_float64 (Seconds d) = word_of_int (sint d sdiv 1000000000))"
  using CreateSessionCookie_hands_over [OF assms, of None]
    CreateSessionCookie_hands_over [OF assms, of "Some d"] Seconds_whole [of d]
  by (simp add: Second_def)

lemma demo_verifies_cookie:
  "VerifyIDToken (demo_backend 0) demo_auth ''cookie'' ([] @ [TokenSourceEnsured])
     = (Inr alice_token,
        [TokenSourceEnsured, ServiceAccountEnsured, VerifierBuilt ''demo'', TokenVerified ''cookie''])"
  by (simp add: verify_run_defs)

text \<open>
  C10 at concrete inputs: a nil duration gives 432000, a duration of 90.5 seconds
  gives 90.
\<close>

theorem CreateSessionCookie_validDuration_witness:
  "tokenSource (demo_backend 0) [] demo_auth = None
   \<and> snd (CreateSessionCookie (demo_backend 0) demo_auth ''cookie'' None [])
     = [TokenSourceEnsured, ServiceAccountEnsured, VerifierBuilt ''demo'', TokenVerified ''cookie'',
        Called ''createSessionCookie''
          (CreateSessionCookieRequest \<lparr>IDToken = ''cookie'', Duration = 432000\<rparr>)]
   \<and> snd (CreateSessionCookie (demo_backend 0) demo_auth ''cookie'' (Some 90500000000) [])
     = [TokenSourceEnsured, ServiceAccountEnsured, VerifierBuilt ''demo'', TokenVerified ''cookie'',
        Called ''createSessionCookie''
          (CreateSessionCookieRequest \<lparr>IDToken = ''cookie'', Duration = 90\<rparr>)]"
proof -
  have ts: "tokenSource (demo_backend 0) [] demo_auth = None" by (simp add: demo_backend_def)
  have small: "\<bar>sint (90500000000 :: int64)\<bar> < 16777216000000000" by simp
  have q: "word_of_int (sint (90500000000 :: int64) sdiv 1000000000) = (90 :: int64)"
    by (simp add: signed_divide_int_def)
  from CreateSessionCookie_validDuration [OF ts demo_verifies_cookie, of 90500000000] small q ts
  show ?thesis by simp
qed

text \<open>
  C10 as stated fails for long durations: for 16777216.999999999 seconds the sum
  \<open>float64(sec) + float64(nsec)/1e9\<close> rounds up to 16777217, so the request carries
  16777217 although the duration has 16777216 whole seconds.
\<close>

theorem CreateSessionCookie_validDuration_counterexample:
  "snd (CreateSessionCookie (demo_backend 0) demo_auth ''cookie'' (Some 16777216999999999) [])
     = [TokenSourceEnsured, ServiceAccountEnsured, VerifierBuilt ''demo'', TokenVerified ''cookie'',
        Called ''createSessionCookie''
          (CreateSessionCookieRequest \<lparr>IDToken = ''cookie'', Duration = 16777217\<rparr>)]
   \<and> sint (16777216999999999 :: int64) sdiv 1000000000 = 16777216"
proof -
  have ts: "tokenSource (demo_backend 0) [] demo_auth = None" by (simp add: demo_backend_def)
  have "sint (16777216999999999 :: int64) sdiv 1000000000 = 16777216"
    by (simp add: signed_divide_int_def)
  with CreateSessionCookie_hands_over [OF ts demo_verifies_cookie, of "Some 16777216999999999"]
    long_duration
  show ?thesis by simp
qed

end
